theory Spec2Isabelle
  imports Main
begin

section \<open>Promises, errors and the wire protocol\<close>

text \<open>
  The orchestrator \<open>EBTorchProcess\<close> drives a pool of worker processes through
  promises. A promise is modelled by the way it settles: it is fulfilled with a value,
  rejected with an error, or it never settles (the worker never answers).
\<close>

datatype error = TypeError string | Error string

datatype 'a promise = Resolved 'a | Rejected error | Pending

type_synonym ident = string
type_synonym payload = string

text \<open>
  The request records the orchestrator writes. Each constructor is one of the object
  literals of the source; \<open>messageType\<close> is its \<open>type\<close> field.
\<close>

datatype message =
    Handshake
  | Reset
  | Stats
  | Store ident payload payload
  | Forget ident
  | Evaluate "ident list"
  | EvaluateBatch string
  | Iteration string
  | Save
  | Load
  | PrepareBatch "ident list" string

fun messageType :: "message \<Rightarrow> string" where
  "messageType Handshake = ''handshake''"
| "messageType Reset = ''reset''"
| "messageType Stats = ''stats''"
| "messageType (Store i inp out) = ''store''"
| "messageType (Forget i) = ''forget''"
| "messageType (Evaluate samples) = ''evaluate''"
| "messageType (EvaluateBatch batchFilename) = ''evaluateBatch''"
| "messageType (Iteration batchFilename) = ''iteration''"
| "messageType Save = ''save''"
| "messageType Load = ''load''"
| "messageType (PrepareBatch ids fileName) = ''prepareBatch''"

text \<open>
  An evaluated object as a worker returns it: its \<open>id\<close> and its other properties.
\<close>

record resultObject =
  oid :: ident
  props :: "(string \<times> payload) list"

text \<open>A record a worker writes back: its \<open>type\<close> tag and the fields the source reads.\<close>

record reply =
  rtype :: string
  objects :: "resultObject list"
  stats :: payload

section \<open>Workers and the environment\<close>

text \<open>
  A worker handle: how the process was spawned (\<open>luajit TrainingScript.lua n+1 numProcesses\<close>
  in the script folder), every exchange written to it so far (the request and the type
  tag awaited), and whether it has been killed.
\<close>

record worker =
  command :: string
  script :: string
  rank :: nat
  poolSize :: nat
  cwd :: "string option"
  inbox :: "(message \<times> string) list"
  alive :: bool

text \<open>
  Everything outside the orchestrator is a parameter: how an exchange with a worker
  (with the history in its \<open>inbox\<close>) settles, given the request and the type tag
  awaited; whether the \<open>n\<close>-th spawn succeeds; in which order concurrently started tasks
  complete (by \<open>latency\<close>, ties in index order); what the script folder lists at each
  poll; and what the renderer prints for each file at each poll. \<open>pathJoin\<close> and
  \<open>base64\<close> stand for Node's \<open>path.join\<close> and \<open>Buffer.toString('base64')\<close>.
\<close>

record environment =
  exchange :: "worker \<Rightarrow> message \<Rightarrow> string \<Rightarrow> reply promise"
  spawned :: "nat \<Rightarrow> error option"
  latency :: "nat \<Rightarrow> nat"
  readdir :: "string \<Rightarrow> nat \<Rightarrow> error + string list"
  execDot :: "nat \<Rightarrow> string \<Rightarrow> error + string"
  pathJoin :: "string \<Rightarrow> string \<Rightarrow> string"
  base64 :: "string \<Rightarrow> string"

text \<open>
  \<open>process.writeAndWaitForMatchingOutput(message, {type: expected})\<close>. The method belongs
  to \<open>EBStdioJSONStreamProcess\<close>, which the source requires but which is not among the
  source files: the promise it returns is the environment's, and the call is recorded
  on the worker it was made on.
\<close>

definition writeAndWaitForMatchingOutput ::
  "environment \<Rightarrow> worker \<Rightarrow> message \<Rightarrow> string \<Rightarrow> reply promise \<times> worker" where
  "writeAndWaitForMatchingOutput env w msg expected =
     (exchange env w msg expected, w\<lparr>inbox := inbox w @ [(msg, expected)]\<rparr>)"

text \<open>
  Bluebird's \<open>Promise.each(self.processes, process => process.writeAndWait...(message, expected))\<close>:
  the workers are visited in order, each exchange is awaited before the next one is
  started, and the first exchange that does not resolve settles the whole promise.
\<close>

fun promiseEach ::
  "environment \<Rightarrow> message \<Rightarrow> string \<Rightarrow> worker list \<Rightarrow> unit promise \<times> worker list" where
  "promiseEach env msg expected [] = (Resolved (), [])"
| "promiseEach env msg expected (w # ws) =
     (case writeAndWaitForMatchingOutput env w msg expected of
        (Resolved r, w') \<Rightarrow>
          (case promiseEach env msg expected ws of (p, ws') \<Rightarrow> (p, w' # ws'))
      | (Rejected e, w') \<Rightarrow> (Rejected e, w' # ws)
      | (Pending, w') \<Rightarrow> (Pending, w' # ws))"

section \<open>The orchestrator\<close>

text \<open>The fields of \<open>EBTorchProcess\<close> that its pool operations read and write.\<close>

record torchProcess =
  scriptFolder :: "string option"
  processes :: "worker list"
  allLoadedEntries :: "ident list"
  numProcesses :: nat

text \<open>The constructor: no workers yet, nothing loaded, one process configured.\<close>

definition newTorchProcess :: "string option \<Rightarrow> torchProcess" where
  "newTorchProcess folder =
     \<lparr>scriptFolder = folder, processes = [], allLoadedEntries = [], numProcesses = 1\<rparr>"

subsection \<open>Array primitives of the source language\<close>

text \<open>\<open>Array.prototype.indexOf\<close>: the first index holding the value, or \<open>-1\<close>.\<close>

fun indexOf :: "'a list \<Rightarrow> 'a \<Rightarrow> int" where
  "indexOf [] x = -1"
| "indexOf (y # ys) x =
     (if y = x then 0 else (case indexOf ys x of i \<Rightarrow> if i < 0 then -1 else i + 1))"

text \<open>
  \<open>Array.prototype.splice(start, deleteCount)\<close>: a negative start counts from the end
  (clamped at 0), a start beyond the end is the end, and the delete count is clamped to
  what is left.
\<close>

definition splice_array :: "'a list \<Rightarrow> int \<Rightarrow> int \<Rightarrow> 'a list" where
  "splice_array xs start deleteCount =
     (let len = int (length xs);
          relativeStart = (if start < 0 then max (len + start) 0 else min start len);
          actualDeleteCount = min (max deleteCount 0) (len - relativeStart)
      in take (nat relativeStart) xs @ drop (nat (relativeStart + actualDeleteCount)) xs)"

subsection \<open>reset, loadObject, removeObject, loadModelFile, killProcess\<close>

definition reset :: "environment \<Rightarrow> torchProcess \<Rightarrow> unit promise \<times> torchProcess" where
  "reset env self =
     (case promiseEach env Reset ''resetCompleted'' (processes self) of
        (p, ws) \<Rightarrow> (p, self\<lparr>processes := ws\<rparr>))"

text \<open>
  \<open>loadObject\<close> registers the push of \<open>id\<close> on the fulfilment of the broadcast, before
  it hands the promise to its caller.
\<close>

definition loadObject ::
  "environment \<Rightarrow> torchProcess \<Rightarrow> ident \<Rightarrow> payload \<Rightarrow> payload \<Rightarrow> unit promise \<times> torchProcess" where
  "loadObject env self i inp out =
     (case promiseEach env (Store i inp out) ''stored'' (processes self) of
        (Resolved u, ws) \<Rightarrow>
          (Resolved u, self\<lparr>processes := ws, allLoadedEntries := allLoadedEntries self @ [i]\<rparr>)
      | (p, ws) \<Rightarrow> (p, self\<lparr>processes := ws\<rparr>))"

definition removeObject ::
  "environment \<Rightarrow> torchProcess \<Rightarrow> ident \<Rightarrow> unit promise \<times> torchProcess" where
  "removeObject env self i =
     (case promiseEach env (Forget i) ''forgotten'' (processes self) of
        (Resolved u, ws) \<Rightarrow>
          (Resolved u,
           self\<lparr>processes := ws,
                allLoadedEntries :=
                  splice_array (allLoadedEntries self) (indexOf (allLoadedEntries self) i) 1\<rparr>)
      | (p, ws) \<Rightarrow> (p, self\<lparr>processes := ws\<rparr>))"

definition loadModelFile :: "environment \<Rightarrow> torchProcess \<Rightarrow> unit promise \<times> torchProcess" where
  "loadModelFile env self =
     (case promiseEach env Load ''loaded'' (processes self) of
        (p, ws) \<Rightarrow> (p, self\<lparr>processes := ws\<rparr>))"

definition killProcess :: "torchProcess \<Rightarrow> unit promise \<times> torchProcess" where
  "killProcess self = (Resolved (), self\<lparr>processes := map (\<lambda>w. w\<lparr>alive := False\<rparr>) (processes self)\<rparr>)"

subsection \<open>processObjects\<close>

text \<open>
  \<open>ids.forEach((id, index) => processBatches[index % processBatches.length].samples.push(id))\<close>
  on the sample lists of the batches, one per worker.
\<close>

fun distribute :: "ident list \<Rightarrow> nat \<Rightarrow> ident list list \<Rightarrow> ident list list" where
  "distribute [] index batches = batches"
| "distribute (i # ids) index batches =
     distribute ids (Suc index)
       (batches[index mod length batches := batches ! (index mod length batches) @ [i]])"

text \<open>
  The reply of an exchange narrowed to its \<open>objects\<close>, as in
  \<open>promise.then((result) => result.objects)\<close>.
\<close>

fun thenObjects :: "reply promise \<Rightarrow> resultObject list promise" where
  "thenObjects (Resolved result) = Resolved (objects result)"
| "thenObjects (Rejected e) = Rejected e"
| "thenObjects Pending = Pending"

text \<open>
  The iteratee of \<open>async.map\<close>: an empty batch answers \<open>{objects: []}\<close> at once and
  writes nothing; any other batch is one \<open>evaluate\<close> exchange with its worker. All
  iteratees are started, in worker order, before any reply is awaited. Of each result
  only \<open>objects\<close> is read afterwards.
\<close>

fun evaluateBatches ::
  "environment \<Rightarrow> worker list \<Rightarrow> ident list list \<Rightarrow> resultObject list promise list \<times> worker list" where
  "evaluateBatches env (w # ws) (samples # batches) =
     (case evaluateBatches env ws batches of
        (ps, ws') \<Rightarrow>
          (if length samples = 0 then (Resolved [] # ps, w # ws')
           else (case writeAndWaitForMatchingOutput env w (Evaluate samples) ''evaluationCompleted'' of
                   (p, w') \<Rightarrow> (thenObjects p # ps, w' # ws'))))"
| "evaluateBatches env ws batches = ([], ws)"

text \<open>
  The completion of concurrently started tasks. \<open>async.map\<close> and \<open>async.times\<close> call
  back with the first error to arrive, and with all results (in task order) once every
  task has succeeded; a task that never calls back leaves the whole call waiting, unless
  another one fails.
\<close>

definition arrivalOrder :: "environment \<Rightarrow> nat \<Rightarrow> nat list" where
  "arrivalOrder env n = sort_key (latency env) [0..<n]"

fun rejection :: "'a promise \<Rightarrow> error option" where
  "rejection (Rejected e) = Some e"
| "rejection p = None"

fun collect :: "'a promise list \<Rightarrow> 'a list option" where
  "collect [] = Some []"
| "collect (Resolved v # ps) = (case collect ps of Some vs \<Rightarrow> Some (v # vs) | None \<Rightarrow> None)"
| "collect (p # ps) = None"

definition asyncMap :: "environment \<Rightarrow> 'a promise list \<Rightarrow> 'a list promise" where
  "asyncMap env ps =
     (case List.map_filter (\<lambda>k. rejection (ps ! k)) (arrivalOrder env (length ps)) of
        e # es \<Rightarrow> Rejected e
      | [] \<Rightarrow> (case collect ps of Some vs \<Rightarrow> Resolved vs | None \<Rightarrow> Pending))"

text \<open>
  \<open>const allResults = {}\<close> is an ordinary object: besides the properties stored in it,
  it inherits those of \<open>Object.prototype\<close>, and an assignment to its \<open>__proto__\<close> goes to
  the inherited setter, which replaces its prototype by the assigned object.
\<close>

record jsObject =
  own :: "string \<rightharpoonup> resultObject"
  proto :: "resultObject option"

definition emptyObject :: jsObject where
  "emptyObject = \<lparr>own = Map.empty, proto = None\<rparr>"

definition objectPrototypeNames :: "string list" where
  "objectPrototypeNames =
     [''constructor'', ''toString'', ''toLocaleString'', ''valueOf'', ''hasOwnProperty'',
      ''isPrototypeOf'', ''propertyIsEnumerable'', ''__defineGetter__'', ''__defineSetter__'',
      ''__lookupGetter__'', ''__lookupSetter__'', ''__proto__'']"

text \<open>What \<open>allResults[id]\<close> can evaluate to.\<close>

datatype slot =
    Undefined
  | Object resultObject
  | Text string
  | Opaque payload
  | ObjectPrototype
  | Builtin string

text \<open>A property of an evaluated object: its \<open>id\<close> (a string) or one of its other properties.\<close>

definition getOwn :: "resultObject \<Rightarrow> string \<Rightarrow> slot option" where
  "getOwn obj k = (if k = ''id'' then Some (Text (oid obj)) else map_option Opaque (map_of (props obj) k))"

text \<open>\<open>allResults[object.id] = object\<close>\<close>

definition setProperty :: "jsObject \<Rightarrow> string \<Rightarrow> resultObject \<Rightarrow> jsObject" where
  "setProperty obj k v =
     (if k = ''__proto__'' \<and> own obj k = None
         \<and> (case proto obj of None \<Rightarrow> True | Some p \<Rightarrow> getOwn p k = None)
      then obj\<lparr>proto := Some v\<rparr>
      else obj\<lparr>own := (own obj)(k \<mapsto> v)\<rparr>)"

text \<open>\<open>allResults[id]\<close>\<close>

definition getProperty :: "jsObject \<Rightarrow> string \<Rightarrow> slot" where
  "getProperty obj k =
     (case own obj k of
        Some v \<Rightarrow> Object v
      | None \<Rightarrow>
          (case (case proto obj of None \<Rightarrow> None | Some p \<Rightarrow> getOwn p k) of
             Some v \<Rightarrow> v
           | None \<Rightarrow>
               (if k = ''__proto__'' then (case proto obj of None \<Rightarrow> ObjectPrototype | Some p \<Rightarrow> Object p)
                else if k \<in> set objectPrototypeNames then Builtin k
                else Undefined)))"

text \<open>The two nested \<open>forEach\<close> loops that fill \<open>allResults\<close>, in worker order.\<close>

definition mergeResults :: "resultObject list list \<Rightarrow> jsObject" where
  "mergeResults results = foldl (\<lambda>allResults object. setProperty allResults (oid object) object) emptyObject (concat results)"

text \<open>
  With no worker in the pool the first \<open>push\<close> reads \<open>samples\<close> of \<open>undefined\<close>; the
  exception is thrown inside \<open>Promise.fromCallback\<close>, which turns it into a rejection.
\<close>

definition processObjects ::
  "environment \<Rightarrow> torchProcess \<Rightarrow> ident list \<Rightarrow> slot list promise \<times> torchProcess" where
  "processObjects env self ids =
     (if processes self = [] \<and> ids \<noteq> []
      then (Rejected (TypeError ''Cannot read property 'samples' of undefined''), self)
      else
        (case evaluateBatches env (processes self)
                (distribute ids 0 (map (\<lambda>process. []) (processes self))) of
           (ps, ws) \<Rightarrow>
             ((case asyncMap env ps of
                 Resolved results \<Rightarrow> Resolved (map (getProperty (mergeResults results)) ids)
               | Rejected e \<Rightarrow> Rejected e
               | Pending \<Rightarrow> Pending),
              self\<lparr>processes := ws\<rparr>)))"

subsection \<open>processBatch and executeTrainingIteration\<close>

text \<open>
  Both read \<open>this.processes[0]\<close> outside any promise: on an empty pool the call itself
  throws.
\<close>

datatype 'a completion = Throws error | Returns 'a

definition processBatch ::
  "environment \<Rightarrow> torchProcess \<Rightarrow> string \<Rightarrow> resultObject list promise completion \<times> torchProcess" where
  "processBatch env self batchFilename =
     (case processes self of
        [] \<Rightarrow> (Throws (TypeError ''Cannot read property 'writeAndWaitForMatchingOutput' of undefined''), self)
      | w # ws \<Rightarrow>
          (case writeAndWaitForMatchingOutput env w (EvaluateBatch batchFilename) ''evaluationCompleted'' of
             (p, w') \<Rightarrow>
               (Returns (thenObjects p), self\<lparr>processes := w' # ws\<rparr>)))"

definition executeTrainingIteration ::
  "environment \<Rightarrow> torchProcess \<Rightarrow> string \<Rightarrow> reply promise completion \<times> torchProcess" where
  "executeTrainingIteration env self batchFilename =
     (case processes self of
        [] \<Rightarrow> (Throws (TypeError ''Cannot read property 'writeAndWaitForMatchingOutput' of undefined''), self)
      | w # ws \<Rightarrow>
          (case writeAndWaitForMatchingOutput env w (Iteration batchFilename) ''iterationCompleted'' of
             (p, w') \<Rightarrow> (Returns p, self\<lparr>processes := w' # ws\<rparr>)))"

subsection \<open>startProcess\<close>

text \<open>
  \<open>EBStdioJSONStreamProcess.spawn(command, [script, n + 1, numProcesses], {cwd: scriptFolder})\<close>.
  The class is not among the source files: whether a call succeeds is the environment's,
  and a worker handle records the arguments of the call that made it.
\<close>

definition spawn :: "environment \<Rightarrow> string \<Rightarrow> string \<Rightarrow> nat \<Rightarrow> nat \<Rightarrow> string option \<Rightarrow> nat \<Rightarrow> error + worker" where
  "spawn env cmd scriptName n count folder task =
     (case spawned env task of
        Some e \<Rightarrow> Inl e
      | None \<Rightarrow> Inr \<lparr>command = cmd, script = scriptName, rank = n, poolSize = count, cwd = folder,
                     inbox = [], alive = True\<rparr>)"

text \<open>
  \<open>async.times\<close> starts all \<open>numProcesses\<close> spawns at once. Each spawn that succeeds
  pushes its worker onto \<open>self.processes\<close> when it completes, whether or not another
  spawn has failed meanwhile; the first failure to arrive ends the series, and the
  handshake step runs only when every spawn has succeeded. Nothing on either path
  terminates a worker. The state returned is the one reached when every spawn has
  completed.
\<close>

definition startProcess :: "environment \<Rightarrow> torchProcess \<Rightarrow> unit promise \<times> torchProcess" where
  "startProcess env self =
     (let spawns = map (\<lambda>n. spawn env ''luajit'' ''TrainingScript.lua'' (n + 1) (numProcesses self)
                               (scriptFolder self) n)
                       (arrivalOrder env (numProcesses self));
          started = self\<lparr>processes := processes self @ [w. Inr w \<leftarrow> spawns]\<rparr>
      in (case [e. Inl e \<leftarrow> spawns] of
            e # es \<Rightarrow> (Rejected e, started)
          | [] \<Rightarrow>
              (case promiseEach env Handshake ''handshake'' (processes started) of
                 (p, ws) \<Rightarrow> (p, started\<lparr>processes := ws\<rparr>))))"

subsection \<open>extractNetworkDiagrams\<close>

definition retryAttempts :: nat where
  "retryAttempts = 100"

definition timeoutBetweenRetries :: nat where
  "timeoutBetweenRetries = 150"

definition maxBufferSize :: int where
  "maxBufferSize = 10 * 1024 * 1024"

text \<open>
  \<open>(/^.*\.dot$/g).test(file)\<close>: the name ends in \<open>.dot\<close> and, since \<open>.\<close> matches no line
  terminator, holds none (of the terminators, line feed and carriage return are
  characters of \<open>string\<close>).
\<close>

definition isDotFile :: "string \<Rightarrow> bool" where
  "isDotFile file =
     (4 \<le> length file \<and> drop (length file - 4) file = ''.dot''
      \<and> list_all (\<lambda>c. c \<noteq> CHR 0x0A \<and> c \<noteq> CHR 0x0D) file)"

record diagram =
  file_name :: string
  data :: string

text \<open>
  One \<open>childProcess.exec\<close> of the renderer: it fails when the command fails or when its
  output exceeds \<open>maxBuffer\<close>.
\<close>

definition renderDiagram :: "environment \<Rightarrow> string \<Rightarrow> nat \<Rightarrow> string \<Rightarrow> diagram promise" where
  "renderDiagram env folder k f =
     (case execDot env k (''dot -Grankdir=LR '' @ pathJoin env folder f @ '' -Tsvg'') of
        Inl err \<Rightarrow> Rejected err
      | Inr result \<Rightarrow>
          (if maxBufferSize < int (length result) then Rejected (Error ''stdout maxBuffer exceeded'')
           else Resolved \<lparr>file_name = f, data = base64 env result\<rparr>))"

text \<open>
  The task handed to \<open>async.retry\<close>, at its \<open>k\<close>-th run: how it calls back, and how long
  it waits before doing so. Only the branch that finds no diagram file waits.
\<close>

definition pollOnce :: "environment \<Rightarrow> string \<Rightarrow> nat \<Rightarrow> diagram list promise \<times> nat" where
  "pollOnce env folder k =
     (case readdir env folder k of
        Inl err \<Rightarrow> (Rejected err, 0)
      | Inr files \<Rightarrow>
          (let dotFiles = filter isDotFile files
           in if length dotFiles = 0
              then (Rejected (Error ''Could not find any architectural diagrams''), timeoutBetweenRetries)
              else (asyncMap env (map (renderDiagram env folder k) dotFiles), 0)))"

text \<open>
  The result of an extraction: how the promise settles, the times (in milliseconds
  waited since the call) at which the folder was read, and the time at which the
  promise settled.
\<close>

record extraction =
  outcome :: "diagram list promise"
  polledAt :: "nat list"
  settledAt :: nat

text \<open>An extraction that was preceded by one more poll, at time \<open>t\<close>.\<close>

definition polledBefore :: "nat \<Rightarrow> extraction \<Rightarrow> extraction" where
  "polledBefore t r = r\<lparr>polledAt := t # polledAt r\<rparr>"

text \<open>
  \<open>async.retry\<close> with \<open>retries\<close> further runs left after the \<open>k\<close>-th: a failed run is
  followed at once by the next one, the last failure is final.
\<close>

fun asyncRetry :: "environment \<Rightarrow> string \<Rightarrow> nat \<Rightarrow> nat \<Rightarrow> nat \<Rightarrow> extraction" where
  "asyncRetry env folder 0 k t =
     (case pollOnce env folder k of
        (p, d) \<Rightarrow> \<lparr>outcome = p, polledAt = [t], settledAt = t + d\<rparr>)"
| "asyncRetry env folder (Suc retries) k t =
     (case pollOnce env folder k of
        (Rejected e, d) \<Rightarrow> polledBefore t (asyncRetry env folder retries (Suc k) (t + d))
      | (p, d) \<Rightarrow> \<lparr>outcome = p, polledAt = [t], settledAt = t + d\<rparr>)"

text \<open>
  Without a script folder \<open>fs.readdir(null, ...)\<close> throws inside \<open>Promise.fromCallback\<close>,
  which rejects.
\<close>

definition extractNetworkDiagrams :: "environment \<Rightarrow> torchProcess \<Rightarrow> extraction" where
  "extractNetworkDiagrams env self =
     (case scriptFolder self of
        None \<Rightarrow> \<lparr>outcome = Rejected (TypeError ''path must be a string''), polledAt = [], settledAt = 0\<rparr>
      | Some folder \<Rightarrow> asyncRetry env folder (retryAttempts - 1) 0 0)"

section \<open>Vocabulary of the properties\<close>

text \<open>
  Round-robin assignment as the specification words it: the bucket of worker \<open>k\<close> among
  \<open>n\<close> holds, in order, the identifiers at the positions \<open>i\<close> with \<open>i mod n = k\<close>.
\<close>

definition bucket :: "ident list \<Rightarrow> nat \<Rightarrow> nat \<Rightarrow> ident list" where
  "bucket ids n k = map (nth ids) (filter (\<lambda>i. i mod n = k) [0..<length ids])"

text \<open>The worker handle that the \<open>n\<close>-th spawn of \<open>startProcess\<close> yields when it succeeds.\<close>

definition freshWorker :: "torchProcess \<Rightarrow> nat \<Rightarrow> worker" where
  "freshWorker self n =
     \<lparr>command = ''luajit'', script = ''TrainingScript.lua'', rank = n + 1,
      poolSize = numProcesses self, cwd = scriptFolder self, inbox = [], alive = True\<rparr>"

text \<open>The spawns that succeed, and the failures of the others, in the order of their arrival.\<close>

definition spawnSuccesses :: "environment \<Rightarrow> torchProcess \<Rightarrow> nat list" where
  "spawnSuccesses env self =
     filter (\<lambda>n. spawned env n = None) (arrivalOrder env (numProcesses self))"

definition spawnFailures :: "environment \<Rightarrow> torchProcess \<Rightarrow> error list" where
  "spawnFailures env self = List.map_filter (spawned env) (arrivalOrder env (numProcesses self))"


text \<open>The \<open>k\<close>-th poll finds diagram files, and the rendering of one of them fails.\<close>

definition renderFails :: "environment \<Rightarrow> string \<Rightarrow> nat \<Rightarrow> bool" where
  "renderFails env folder k =
     (case readdir env folder k of
        Inl err \<Rightarrow> False
      | Inr files \<Rightarrow>
          list_ex (\<lambda>f. rejection (renderDiagram env folder k f) \<noteq> None) (filter isDotFile files))"

text \<open>The objects the workers returned to one \<open>processObjects\<close> call, in worker order.\<close>

definition returnedObjects :: "environment \<Rightarrow> torchProcess \<Rightarrow> ident list \<Rightarrow> resultObject list" where
  "returnedObjects env self ids =
     concat (map (\<lambda>p. case p of Resolved os \<Rightarrow> os | _ \<Rightarrow> [])
       (fst (evaluateBatches env (processes self)
               (distribute ids 0 (map (\<lambda>process. []) (processes self))))))"

text \<open>
  Load and unload operations of the residency tracker, and the orchestrator after a
  sequence of them (whatever each of them settles to).
\<close>

datatype operation = LoadOp ident payload payload | UnloadOp ident

fun perform :: "environment \<Rightarrow> torchProcess \<Rightarrow> operation list \<Rightarrow> torchProcess" where
  "perform env self [] = self"
| "perform env self (LoadOp i inp out # ops) = perform env (snd (loadObject env self i inp out)) ops"
| "perform env self (UnloadOp i # ops) = perform env (snd (removeObject env self i)) ops"

text \<open>The promise is fulfilled.\<close>

definition isResolved :: "'a promise \<Rightarrow> bool" where
  "isResolved p = (case p of Resolved v \<Rightarrow> True | _ \<Rightarrow> False)"

text \<open>A worker acknowledges a request when the exchange with it resolves.\<close>

definition acknowledges :: "environment \<Rightarrow> message \<Rightarrow> string \<Rightarrow> worker \<Rightarrow> bool" where
  "acknowledges env msg expected w =
     isResolved (fst (writeAndWaitForMatchingOutput env w msg expected))"

text \<open>The worker after one more exchange has been written to it.\<close>

definition deliver :: "message \<Rightarrow> string \<Rightarrow> worker \<Rightarrow> worker" where
  "deliver msg expected w = w\<lparr>inbox := inbox w @ [(msg, expected)]\<rparr>"

section \<open>Example environments\<close>

text \<open>The reply tag the wire protocol pairs with each request.\<close>

definition replyTypeOf :: "message \<Rightarrow> string" where
  "replyTypeOf msg =
     (case msg of
        Handshake \<Rightarrow> ''handshake''
      | Reset \<Rightarrow> ''resetCompleted''
      | Stats \<Rightarrow> ''stats''
      | Store i inp out \<Rightarrow> ''stored''
      | Forget i \<Rightarrow> ''forgotten''
      | Evaluate samples \<Rightarrow> ''evaluationCompleted''
      | EvaluateBatch f \<Rightarrow> ''evaluationCompleted''
      | Iteration f \<Rightarrow> ''iterationCompleted''
      | Save \<Rightarrow> ''saved''
      | Load \<Rightarrow> ''loaded''
      | PrepareBatch ids f \<Rightarrow> ''batchPrepared'')"

text \<open>
  Workers that follow the protocol: every request is answered by the reply of the type
  the protocol pairs with it, so an exchange that awaits another type never resolves;
  an evaluation returns one object per sample. Every spawn succeeds, the script folder
  holds no file.
\<close>

definition obedient :: environment where
  "obedient =
     \<lparr>exchange = (\<lambda>w msg expected.
         if expected = replyTypeOf msg
         then Resolved
           \<lparr>rtype = replyTypeOf msg,
            objects = (case msg of Evaluate samples \<Rightarrow> map (\<lambda>i. \<lparr>oid = i, props = []\<rparr>) samples
                       | _ \<Rightarrow> []),
            stats = ''''\<rparr>
         else Pending),
      spawned = (\<lambda>n. None),
      latency = (\<lambda>n. 0),
      readdir = (\<lambda>folder k. Inr []),
      execDot = (\<lambda>k cmd. Inr ''<svg/>''),
      pathJoin = (\<lambda>a b. a @ ''/'' @ b),
      base64 = (\<lambda>s. if s = ''<svg/>'' then ''PHN2Zy8+'' else '''')\<rparr>"

text \<open>Orchestrators configured for a number of workers, and two started pools.\<close>

definition configured :: "nat \<Rightarrow> torchProcess" where
  "configured n = (newTorchProcess (Some ''/tmp/eb''))\<lparr>numProcesses := n\<rparr>"

definition pool2 :: torchProcess where
  "pool2 = snd (startProcess obedient (configured 2))"

definition pool3 :: torchProcess where
  "pool3 = snd (startProcess obedient (configured 3))"

text \<open>A pool of three workers with two objects loaded.\<close>

definition loaded3 :: torchProcess where
  "loaded3 = snd (loadObject obedient (snd (loadObject obedient pool3 ''a'' ''in'' ''out'')) ''b'' ''in'' ''out'')"

text \<open>A started pool of one worker, the configuration the constructor sets.\<close>

definition pool1 :: torchProcess where
  "pool1 = snd (startProcess obedient (newTorchProcess (Some ''/tmp/eb'')))"

text \<open>Workers that complete every request but return no object.\<close>

definition forgetful :: environment where
  "forgetful =
     obedient\<lparr>exchange := (\<lambda>w msg expected.
                 Resolved \<lparr>rtype = expected, objects = [], stats = ''''\<rparr>)\<rparr>"

text \<open>The second worker's channel breaks on every \<open>store\<close> request.\<close>

definition faltering :: environment where
  "faltering =
     obedient\<lparr>exchange := (\<lambda>w msg expected.
                 if rank w = 2 \<and> messageType msg = ''store''
                 then Rejected (Error ''channel closed'')
                 else exchange obedient w msg expected)\<rparr>"

text \<open>The second of the spawns fails; every other one succeeds.\<close>

definition scarce :: environment where
  "scarce =
     obedient\<lparr>spawned := (\<lambda>n. if n = 1 then Some (Error ''spawn luajit EAGAIN'') else None)\<rparr>"

text \<open>The worker of rank 2 answers every request but the handshake, which fails.\<close>

definition halfDeaf :: environment where
  "halfDeaf =
     obedient\<lparr>exchange := (\<lambda>w msg expected.
                 if rank w = 2 \<and> messageType msg = ''handshake''
                 then Rejected (Error ''handshake failed'')
                 else exchange obedient w msg expected)\<rparr>"

text \<open>
  The script folder holds two diagram files among others; the renderer fails on
  \<open>b.dot\<close> at every run and succeeds on any other file.
\<close>

definition brokenRenderer :: environment where
  "brokenRenderer =
     obedient\<lparr>readdir := (\<lambda>folder k. Inr [''TrainingScript.lua'', ''a.dot'', ''b.dot'']),
              execDot := (\<lambda>k cmd. if cmd = ''dot -Grankdir=LR /tmp/eb/b.dot -Tsvg''
                                 then Inl (Error ''Command failed'')
                                 else Inr ''<svg/>'')\<rparr>"

text \<open>The diagram files appear in the folder after three polls; the renderer works.\<close>

definition lateDiagrams :: environment where
  "lateDiagrams =
     obedient\<lparr>readdir := (\<lambda>folder k. if k < 3 then Inr [''TrainingScript.lua'']
                                    else Inr [''TrainingScript.lua'', ''a.dot'', ''b.dot''])\<rparr>"



section \<open>Exchanges and broadcasts\<close>

lemma isResolved_simps [simp]:
  "isResolved (Resolved v) = True" "isResolved (Rejected e) = False" "isResolved Pending = False"
  by (simp_all add: isResolved_def)

lemma snd_writeAndWait [simp]:
  "snd (writeAndWaitForMatchingOutput env w msg expected) = deliver msg expected w"
  by (simp add: writeAndWaitForMatchingOutput_def deliver_def)


text \<open>A broadcast resolves exactly when every worker acknowledges.\<close>

lemma promiseEach_resolved_iff:
  "isResolved (fst (promiseEach env msg expected ws)) = list_all (acknowledges env msg expected) ws"
  by (induction ws) (auto simp: acknowledges_def split: prod.splits promise.splits)

text \<open>
  The request reaches the workers that precede the first one that does not acknowledge,
  and that one; no worker after it.
\<close>

lemma promiseEach_workers:
  "snd (promiseEach env msg expected ws) =
     map (deliver msg expected) (take (Suc (length (takeWhile (acknowledges env msg expected) ws))) ws)
     @ drop (Suc (length (takeWhile (acknowledges env msg expected) ws))) ws"
proof (induction ws)
  case Nil
  then show ?case by simp
next
  case (Cons w ws)
  obtain p w' where ww: "writeAndWaitForMatchingOutput env w msg expected = (p, w')"
    by (cases "writeAndWaitForMatchingOutput env w msg expected")
  then have w': "w' = deliver msg expected w"
    using snd_writeAndWait[of env w msg expected] by simp
  from ww have ack: "acknowledges env msg expected w = isResolved p"
    by (simp add: acknowledges_def)
  show ?case
    using Cons ww w' ack by (cases p) (auto split: prod.splits)
qed

lemma promiseEach_resolved_workers:
  assumes "fst (promiseEach env msg expected ws) = Resolved u"
  shows "snd (promiseEach env msg expected ws) = map (deliver msg expected) ws"
proof -
  from assms have "isResolved (fst (promiseEach env msg expected ws))" by simp
  then have "list_all (acknowledges env msg expected) ws"
    by (simp add: promiseEach_resolved_iff)
  then have tw: "takeWhile (acknowledges env msg expected) ws = ws"
    by (simp add: list_all_iff)
  have "snd (promiseEach env msg expected ws) =
     map (deliver msg expected) (take (Suc (length ws)) ws) @ drop (Suc (length ws)) ws"
    using promiseEach_workers[of env msg expected ws] by (simp only: tw)
  then show ?thesis by simp
qed

text \<open>The first worker that does not acknowledge decides how the broadcast settles.\<close>

lemma promiseEach_first_silent:
  "fst (promiseEach env msg expected ws) =
     (case dropWhile (acknowledges env msg expected) ws of
        [] \<Rightarrow> Resolved ()
      | w # rest \<Rightarrow> (case fst (writeAndWaitForMatchingOutput env w msg expected) of
                      Rejected e \<Rightarrow> Rejected e | _ \<Rightarrow> Pending))"
proof (induction ws)
  case Nil
  then show ?case by simp
next
  case (Cons w ws)
  obtain p w' where ww: "writeAndWaitForMatchingOutput env w msg expected = (p, w')"
    by (cases "writeAndWaitForMatchingOutput env w msg expected")
  from ww have ack: "acknowledges env msg expected w = isResolved p"
    by (simp add: acknowledges_def)
  show ?case
    using Cons ww ack by (cases p) (auto split: prod.splits)
qed

lemma dropWhile_first_silent:
  assumes "k < length ws" and "\<forall>j<k. P (ws ! j)" and "\<not> P (ws ! k)"
  shows "dropWhile P ws = ws ! k # drop (Suc k) ws"
proof -
  have "takeWhile P ws = take k ws"
    using assms by (intro takeWhile_eq_take_P_nth) auto
  then have "length (takeWhile P ws) = k" using assms(1) by simp
  then have "dropWhile P ws = drop k ws" by (simp add: dropWhile_eq_drop)
  then show ?thesis using assms(1) by (simp add: Cons_nth_drop_Suc)
qed

text \<open>
  When the exchange with a worker is rejected and every worker before it has
  acknowledged, the broadcast is rejected with the same error.
\<close>

lemma promiseEach_rejected:
  assumes "k < length ws"
    and "\<forall>j<k. acknowledges env msg expected (ws ! j)"
    and "fst (writeAndWaitForMatchingOutput env (ws ! k) msg expected) = Rejected e"
  shows "fst (promiseEach env msg expected ws) = Rejected e"
proof -
  from assms(3) have "\<not> acknowledges env msg expected (ws ! k)"
    by (simp add: acknowledges_def)
  with assms(1,2) have "dropWhile (acknowledges env msg expected) ws = ws ! k # drop (Suc k) ws"
    by (rule dropWhile_first_silent)
  then show ?thesis
    using assms(3) by (simp add: promiseEach_first_silent)
qed

section \<open>The residency record\<close>

lemma indexOf_absent: "x \<notin> set xs \<Longrightarrow> indexOf xs x = - 1"
  by (induction xs) auto

lemma indexOf_fresh_append: "x \<notin> set xs \<Longrightarrow> indexOf (xs @ [x]) x = int (length xs)"
  by (induction xs) auto

lemma splice_last: "splice_array xs (- 1) 1 = butlast xs"
  by (cases xs rule: rev_cases) (auto simp: splice_array_def Let_def)

lemma splice_appended: "splice_array (xs @ [x]) (int (length xs)) 1 = xs"
  by (simp add: splice_array_def Let_def)

lemma loadObject_entries:
  "allLoadedEntries (snd (loadObject env self i inp out)) =
     (if isResolved (fst (loadObject env self i inp out)) then allLoadedEntries self @ [i]
      else allLoadedEntries self)"
  by (simp add: loadObject_def split: prod.splits promise.splits)

lemma loadObject_fst:
  "fst (loadObject env self i inp out) =
     fst (promiseEach env (Store i inp out) ''stored'' (processes self))"
  by (simp add: loadObject_def split: prod.splits promise.splits)

lemma loadObject_processes:
  "processes (snd (loadObject env self i inp out)) =
     snd (promiseEach env (Store i inp out) ''stored'' (processes self))"
  by (simp add: loadObject_def split: prod.splits promise.splits)

lemma removeObject_entries:
  "allLoadedEntries (snd (removeObject env self i)) =
     (if isResolved (fst (removeObject env self i))
      then splice_array (allLoadedEntries self) (indexOf (allLoadedEntries self) i) 1
      else allLoadedEntries self)"
  by (simp add: removeObject_def split: prod.splits promise.splits)

lemma removeObject_fst:
  "fst (removeObject env self i) = fst (promiseEach env (Forget i) ''forgotten'' (processes self))"
  by (simp add: removeObject_def split: prod.splits promise.splits)

lemma removeObject_processes:
  "processes (snd (removeObject env self i)) =
     snd (promiseEach env (Forget i) ''forgotten'' (processes self))"
  by (simp add: removeObject_def split: prod.splits promise.splits)

text \<open>
  Claim C10. For an identifier that is not in the residency record, \<open>indexOf\<close> returns
  \<open>-1\<close>, and a \<open>removeObject\<close> that resolves (every worker acknowledged the \<open>forget\<close>
  exchange) splices at that index: the record loses its last, most recently appended
  identifier instead of staying as it was.
\<close>

theorem removeObject_absent_drops_last:
  assumes "i \<notin> set (allLoadedEntries self)"
    and "fst (removeObject env self i) = Resolved ()"
  shows "indexOf (allLoadedEntries self) i = - 1
     \<and> allLoadedEntries (snd (removeObject env self i)) = butlast (allLoadedEntries self)"
  using assms by (simp add: removeObject_entries indexOf_absent splice_last)

theorem removeObject_absent_drops_last_witness:
  "allLoadedEntries loaded3 = [''a'', ''b'']
   \<and> fst (removeObject obedient loaded3 ''z'') = Resolved ()
   \<and> allLoadedEntries (snd (removeObject obedient loaded3 ''z'')) = [''a'']"
proof -
  have entries: "allLoadedEntries loaded3 = [''a'', ''b'']" by code_simp
  have absent: "''z'' \<notin> set (allLoadedEntries loaded3)" by code_simp
  have resolved: "fst (removeObject obedient loaded3 ''z'') = Resolved ()" by code_simp
  from removeObject_absent_drops_last[OF absent resolved] entries resolved
  show ?thesis by simp
qed

text \<open>
  Claim C5. For an identifier that is not resident, a \<open>loadObject\<close> that resolves
  followed at once by a \<open>removeObject\<close> that resolves leaves the residency record as it
  was before the pair, and every worker has received the \<open>store\<close> exchange for the
  identifier followed by the \<open>forget\<close> exchange for it.
\<close>

theorem load_then_remove_roundtrip:
  assumes "i \<notin> set (allLoadedEntries self)"
    and "loadObject env self i inp out = (Resolved (), loaded)"
    and "removeObject env loaded i = (Resolved (), removed)"
  shows "allLoadedEntries removed = allLoadedEntries self
     \<and> map inbox (processes removed) =
         map (\<lambda>w. inbox w @ [(Store i inp out, ''stored''), (Forget i, ''forgotten'')])
           (processes self)"
proof -
  have l1: "fst (loadObject env self i inp out) = Resolved ()"
    and l2: "snd (loadObject env self i inp out) = loaded"
    using assms(2) by simp_all
  have r1: "fst (removeObject env loaded i) = Resolved ()"
    and r2: "snd (removeObject env loaded i) = removed"
    using assms(3) by simp_all
  have e1: "allLoadedEntries loaded = allLoadedEntries self @ [i]"
    using loadObject_entries[of env self i inp out] l1 l2 by simp
  have e2: "allLoadedEntries removed = allLoadedEntries self"
    using removeObject_entries[of env loaded i] r1 r2 e1 assms(1)
    by (simp add: indexOf_fresh_append splice_appended)
  have p1: "processes loaded = map (deliver (Store i inp out) ''stored'') (processes self)"
    using loadObject_processes[of env self i inp out] l1 l2
      promiseEach_resolved_workers[of env "Store i inp out" "''stored''" "processes self" "()"]
    by (simp add: loadObject_fst)
  have p2: "processes removed = map (deliver (Forget i) ''forgotten'') (processes loaded)"
    using removeObject_processes[of env loaded i] r1 r2
      promiseEach_resolved_workers[of env "Forget i" "''forgotten''" "processes loaded" "()"]
    by (simp add: removeObject_fst)
  show ?thesis using e2 p1 p2 by (simp add: deliver_def)
qed

theorem load_then_remove_roundtrip_witness:
  "allLoadedEntries (snd (removeObject obedient (snd (loadObject obedient pool3 ''a'' ''in'' ''out'')) ''a'')) = []
   \<and> map inbox (processes (snd (removeObject obedient (snd (loadObject obedient pool3 ''a'' ''in'' ''out'')) ''a''))) =
     replicate 3 [(Handshake, ''handshake''), (Store ''a'' ''in'' ''out'', ''stored''), (Forget ''a'', ''forgotten'')]"
proof -
  have a: "''a'' \<notin> set (allLoadedEntries pool3)" by code_simp
  have b: "loadObject obedient pool3 ''a'' ''in'' ''out''
      = (Resolved (), snd (loadObject obedient pool3 ''a'' ''in'' ''out''))"
    by code_simp
  have c: "removeObject obedient (snd (loadObject obedient pool3 ''a'' ''in'' ''out'')) ''a''
      = (Resolved (), snd (removeObject obedient (snd (loadObject obedient pool3 ''a'' ''in'' ''out'')) ''a''))"
    by code_simp
  have d: "allLoadedEntries pool3 = []" by code_simp
  have e: "map (\<lambda>w. inbox w @ [(Store ''a'' ''in'' ''out'', ''stored''), (Forget ''a'', ''forgotten'')]) (processes pool3)
      = replicate 3 [(Handshake, ''handshake''), (Store ''a'' ''in'' ''out'', ''stored''), (Forget ''a'', ''forgotten'')]"
    by code_simp
  from load_then_remove_roundtrip[OF a b c] d e show ?thesis
    by simp
qed

section \<open>reset\<close>

lemma reset_entries: "allLoadedEntries (snd (reset env self)) = allLoadedEntries self"
  by (simp add: reset_def split: prod.splits)

lemma reset_fst: "fst (reset env self) = fst (promiseEach env Reset ''resetCompleted'' (processes self))"
  by (simp add: reset_def split: prod.splits)

lemma reset_processes:
  "processes (snd (reset env self)) = snd (promiseEach env Reset ''resetCompleted'' (processes self))"
  by (simp add: reset_def split: prod.splits)

text \<open>
  Claim C9. \<open>reset\<close> broadcasts the \<open>reset\<close> exchange (awaiting \<open>resetCompleted\<close>) and
  leaves the residency record as it was, in every state and so after every sequence of
  load and unload operations; it resolves exactly when every worker acknowledges, and
  then every worker has received the exchange.
\<close>

theorem reset_keeps_residency:
  "allLoadedEntries (snd (reset env self)) = allLoadedEntries self
   \<and> allLoadedEntries (snd (reset env (perform env self ops))) = allLoadedEntries (perform env self ops)
   \<and> isResolved (fst (reset env self)) = list_all (acknowledges env Reset ''resetCompleted'') (processes self)
   \<and> (isResolved (fst (reset env self)) \<longrightarrow>
        processes (snd (reset env self)) = map (deliver Reset ''resetCompleted'') (processes self))
   \<and> messageType Reset = ''reset''"
proof -
  have "isResolved (fst (reset env self)) \<Longrightarrow>
        processes (snd (reset env self)) = map (deliver Reset ''resetCompleted'') (processes self)"
  proof -
    assume "isResolved (fst (reset env self))"
    then have "fst (promiseEach env Reset ''resetCompleted'' (processes self)) = Resolved ()"
      by (cases "fst (promiseEach env Reset ''resetCompleted'' (processes self))") (simp_all add: reset_fst)
    then show ?thesis
      by (simp add: reset_processes promiseEach_resolved_workers)
  qed
  then show ?thesis
    by (simp add: reset_entries reset_fst promiseEach_resolved_iff)
qed

theorem reset_keeps_residency_witness:
  "allLoadedEntries (snd (reset obedient (perform obedient pool3 [LoadOp ''a'' ''in'' ''out'', LoadOp ''b'' ''in'' ''out'', UnloadOp ''a'']))) = [''b'']
   \<and> fst (reset obedient loaded3) = Resolved ()
   \<and> allLoadedEntries (snd (reset obedient loaded3)) = [''a'', ''b'']
   \<and> map (last \<circ> inbox) (processes (snd (reset obedient loaded3))) = replicate 3 (Reset, ''resetCompleted'')"
proof -
  have a: "allLoadedEntries (perform obedient pool3 [LoadOp ''a'' ''in'' ''out'', LoadOp ''b'' ''in'' ''out'', UnloadOp ''a'']) = [''b'']"
    by code_simp
  have b: "allLoadedEntries loaded3 = [''a'', ''b'']" by code_simp
  have c: "list_all (acknowledges obedient Reset ''resetCompleted'') (processes loaded3)" by code_simp
  have d: "map (last \<circ> inbox) (map (deliver Reset ''resetCompleted'') (processes loaded3)) = replicate 3 (Reset, ''resetCompleted'')"
    by code_simp
  have e: "fst (reset obedient loaded3) = Resolved ()" by code_simp
  from reset_keeps_residency[of obedient loaded3 "[]"]
    reset_keeps_residency[of obedient pool3 "[LoadOp ''a'' ''in'' ''out'', LoadOp ''b'' ''in'' ''out'', UnloadOp ''a'']"]
    a b c d e
  show ?thesis by simp
qed

section \<open>loadObject\<close>

text \<open>
  Claim C3. \<open>loadObject\<close> writes the \<open>store\<close> exchange, awaiting a reply of type
  \<open>stored\<close>, to the workers one at a time in pool order: a worker receives it only when
  the exchange with every worker before it has resolved. The promise resolves exactly
  when the exchange with every worker has resolved, and only then is the identifier
  appended to the residency record. When the exchange of a worker fails, the promise
  is rejected with that failure and the residency record is left as it was.
\<close>

theorem loadObject_broadcast:
  "isResolved (fst (loadObject env self i inp out))
      = list_all (acknowledges env (Store i inp out) ''stored'') (processes self)
   \<and> processes (snd (loadObject env self i inp out)) =
       map (deliver (Store i inp out) ''stored'')
         (take (Suc (length (takeWhile (acknowledges env (Store i inp out) ''stored'') (processes self))))
            (processes self))
       @ drop (Suc (length (takeWhile (acknowledges env (Store i inp out) ''stored'') (processes self))))
            (processes self)
   \<and> allLoadedEntries (snd (loadObject env self i inp out)) =
       (if isResolved (fst (loadObject env self i inp out)) then allLoadedEntries self @ [i]
        else allLoadedEntries self)
   \<and> (\<forall>k e. k < length (processes self)
          \<and> (\<forall>j<k. acknowledges env (Store i inp out) ''stored'' (processes self ! j))
          \<and> fst (writeAndWaitForMatchingOutput env (processes self ! k) (Store i inp out) ''stored'') = Rejected e
        \<longrightarrow> fst (loadObject env self i inp out) = Rejected e
            \<and> allLoadedEntries (snd (loadObject env self i inp out)) = allLoadedEntries self)
   \<and> messageType (Store i inp out) = ''store''"
proof -
  let ?m = "Store i inp out"
  let ?ws = "processes self"
  have rej: "fst (loadObject env self i inp out) = Rejected e
            \<and> allLoadedEntries (snd (loadObject env self i inp out)) = allLoadedEntries self"
    if k: "k < length ?ws"
      and before: "\<forall>j<k. acknowledges env ?m ''stored'' (?ws ! j)"
      and fails: "fst (writeAndWaitForMatchingOutput env (?ws ! k) ?m ''stored'') = Rejected e"
    for k e
  proof -
    from k before fails have "fst (promiseEach env ?m ''stored'' ?ws) = Rejected e"
      by (rule promiseEach_rejected)
    then have "fst (loadObject env self i inp out) = Rejected e"
      by (simp add: loadObject_fst)
    then show ?thesis by (simp add: loadObject_entries)
  qed
  then have c4: "\<forall>k e. k < length ?ws
          \<and> (\<forall>j<k. acknowledges env ?m ''stored'' (?ws ! j))
          \<and> fst (writeAndWaitForMatchingOutput env (?ws ! k) ?m ''stored'') = Rejected e
        \<longrightarrow> fst (loadObject env self i inp out) = Rejected e
            \<and> allLoadedEntries (snd (loadObject env self i inp out)) = allLoadedEntries self"
    by blast
  have c1: "isResolved (fst (loadObject env self i inp out)) = list_all (acknowledges env ?m ''stored'') ?ws"
    by (simp add: loadObject_fst promiseEach_resolved_iff)
  have c2: "processes (snd (loadObject env self i inp out)) =
       map (deliver ?m ''stored'') (take (Suc (length (takeWhile (acknowledges env ?m ''stored'') ?ws))) ?ws)
       @ drop (Suc (length (takeWhile (acknowledges env ?m ''stored'') ?ws))) ?ws"
    by (simp only: loadObject_processes promiseEach_workers)
  have c5: "messageType ?m = ''store''"
    by simp
  show ?thesis
    by (rule conjI[OF c1 conjI[OF c2 conjI[OF loadObject_entries conjI[OF c4 c5]]]])
qed

theorem loadObject_broadcast_witness:
  "fst (loadObject obedient pool3 ''a'' ''in'' ''out'') = Resolved ()
   \<and> allLoadedEntries (snd (loadObject obedient pool3 ''a'' ''in'' ''out'')) = [''a'']
   \<and> fst (loadObject faltering pool3 ''a'' ''in'' ''out'') = Rejected (Error ''channel closed'')
   \<and> allLoadedEntries (snd (loadObject faltering pool3 ''a'' ''in'' ''out'')) = []
   \<and> map inbox (processes (snd (loadObject faltering pool3 ''a'' ''in'' ''out''))) =
       [[(Handshake, ''handshake''), (Store ''a'' ''in'' ''out'', ''stored'')],
        [(Handshake, ''handshake''), (Store ''a'' ''in'' ''out'', ''stored'')],
        [(Handshake, ''handshake'')]]"
proof -
  have all3: "list_all (acknowledges obedient (Store ''a'' ''in'' ''out'') ''stored'') (processes pool3)"
    by code_simp
  have entries: "allLoadedEntries pool3 = []" by code_simp
  have len: "1 < length (processes pool3)" by code_simp
  have before: "\<forall>j<1. acknowledges faltering (Store ''a'' ''in'' ''out'') ''stored'' (processes pool3 ! j)"
  proof -
    have "acknowledges faltering (Store ''a'' ''in'' ''out'') ''stored'' (processes pool3 ! 0)" by code_simp
    then show ?thesis by simp
  qed
  have breaks: "fst (writeAndWaitForMatchingOutput faltering (processes pool3 ! 1) (Store ''a'' ''in'' ''out'') ''stored'')
      = Rejected (Error ''channel closed'')"
    by code_simp
  have reached: "map inbox (map (deliver (Store ''a'' ''in'' ''out'') ''stored'')
         (take (Suc (length (takeWhile (acknowledges faltering (Store ''a'' ''in'' ''out'') ''stored'') (processes pool3))))
            (processes pool3))
       @ drop (Suc (length (takeWhile (acknowledges faltering (Store ''a'' ''in'' ''out'') ''stored'') (processes pool3))))
            (processes pool3)) =
       [[(Handshake, ''handshake''), (Store ''a'' ''in'' ''out'', ''stored'')],
        [(Handshake, ''handshake''), (Store ''a'' ''in'' ''out'', ''stored'')],
        [(Handshake, ''handshake'')]]"
    by code_simp
  have ok: "fst (loadObject obedient pool3 ''a'' ''in'' ''out'') = Resolved ()" by code_simp
  note good = loadObject_broadcast[of obedient pool3 "''a''" "''in''" "''out''"]
  note bad = loadObject_broadcast[of faltering pool3 "''a''" "''in''" "''out''"]
  from bad len before breaks
  have r: "fst (loadObject faltering pool3 ''a'' ''in'' ''out'') = Rejected (Error ''channel closed'')
      \<and> allLoadedEntries (snd (loadObject faltering pool3 ''a'' ''in'' ''out'')) = allLoadedEntries pool3"
    by blast
  from bad reached
  have p: "map inbox (processes (snd (loadObject faltering pool3 ''a'' ''in'' ''out''))) =
       [[(Handshake, ''handshake''), (Store ''a'' ''in'' ''out'', ''stored'')],
        [(Handshake, ''handshake''), (Store ''a'' ''in'' ''out'', ''stored'')],
        [(Handshake, ''handshake'')]]"
    by simp
  from good all3 ok entries
  have g: "allLoadedEntries (snd (loadObject obedient pool3 ''a'' ''in'' ''out'')) = [''a'']"
    by simp
  from ok g r p entries show ?thesis by simp
qed

section \<open>processBatch and executeTrainingIteration\<close>

lemma batch_operations_empty_pool:
  assumes "processes self = []"
  shows "processBatch env self batchFilename =
           (Throws (TypeError ''Cannot read property 'writeAndWaitForMatchingOutput' of undefined''), self)
     \<and> executeTrainingIteration env self batchFilename =
           (Throws (TypeError ''Cannot read property 'writeAndWaitForMatchingOutput' of undefined''), self)"
  using assms by (simp add: processBatch_def executeTrainingIteration_def)

text \<open>
  Claim C8. On a pool with at least one worker, \<open>processBatch\<close> and
  \<open>executeTrainingIteration\<close> each write exactly one exchange, to the first worker of the
  pool: \<open>evaluateBatch\<close> awaiting \<open>evaluationCompleted\<close>, and \<open>iteration\<close> awaiting
  \<open>iterationCompleted\<close>. Every other worker is left as it was, whatever the size of
  the pool.
\<close>

theorem batch_operations_first_worker_only:
  assumes "processes self = w # ws"
  shows "snd (processBatch env self batchFilename) =
           self\<lparr>processes := deliver (EvaluateBatch batchFilename) ''evaluationCompleted'' w # ws\<rparr>
     \<and> fst (processBatch env self batchFilename) =
           Returns (thenObjects (fst (writeAndWaitForMatchingOutput env w
                      (EvaluateBatch batchFilename) ''evaluationCompleted'')))
     \<and> snd (executeTrainingIteration env self batchFilename) =
           self\<lparr>processes := deliver (Iteration batchFilename) ''iterationCompleted'' w # ws\<rparr>
     \<and> fst (executeTrainingIteration env self batchFilename) =
           Returns (fst (writeAndWaitForMatchingOutput env w
                      (Iteration batchFilename) ''iterationCompleted''))
     \<and> messageType (EvaluateBatch batchFilename) = ''evaluateBatch''
     \<and> messageType (Iteration batchFilename) = ''iteration''"
  using assms
  by (simp add: processBatch_def executeTrainingIteration_def case_prod_beta)

theorem batch_operations_first_worker_only_witness:
  "map inbox (processes (snd (processBatch obedient pool3 ''batch.t7''))) =
     [[(Handshake, ''handshake''), (EvaluateBatch ''batch.t7'', ''evaluationCompleted'')],
      [(Handshake, ''handshake'')], [(Handshake, ''handshake'')]]
   \<and> map inbox (processes (snd (executeTrainingIteration obedient pool3 ''batch.t7''))) =
     [[(Handshake, ''handshake''), (Iteration ''batch.t7'', ''iterationCompleted'')],
      [(Handshake, ''handshake'')], [(Handshake, ''handshake'')]]"
proof -
  have ne: "processes pool3 = hd (processes pool3) # tl (processes pool3)" by code_simp
  have a: "map inbox (deliver (EvaluateBatch ''batch.t7'') ''evaluationCompleted'' (hd (processes pool3))
             # tl (processes pool3)) =
     [[(Handshake, ''handshake''), (EvaluateBatch ''batch.t7'', ''evaluationCompleted'')],
      [(Handshake, ''handshake'')], [(Handshake, ''handshake'')]]"
    by code_simp
  have b: "map inbox (deliver (Iteration ''batch.t7'') ''iterationCompleted'' (hd (processes pool3))
             # tl (processes pool3)) =
     [[(Handshake, ''handshake''), (Iteration ''batch.t7'', ''iterationCompleted'')],
      [(Handshake, ''handshake'')], [(Handshake, ''handshake'')]]"
    by code_simp
  note sent = batch_operations_first_worker_only[OF ne, of obedient "''batch.t7''"]
  from sent have "processes (snd (processBatch obedient pool3 ''batch.t7'')) =
      deliver (EvaluateBatch ''batch.t7'') ''evaluationCompleted'' (hd (processes pool3)) # tl (processes pool3)"
    by simp
  moreover from sent have "processes (snd (executeTrainingIteration obedient pool3 ''batch.t7'')) =
      deliver (Iteration ''batch.t7'') ''iterationCompleted'' (hd (processes pool3)) # tl (processes pool3)"
    by simp
  ultimately show ?thesis using a b by (simp only:) 
qed

section \<open>processObjects\<close>

lemma distribute_length [simp]: "length (distribute ids index batches) = length batches"
  by (induction ids arbitrary: index batches) auto

lemma filter_upt_Suc:
  "filter P [0..<Suc n] = (if P 0 then [0] else []) @ map Suc (filter (P \<circ> Suc) [0..<n])"
proof -
  have "[0..<Suc n] = 0 # map Suc [0..<n]"
    by (simp only: map_Suc_upt upt_conv_Cons[of 0 "Suc n"])
  then show ?thesis by (simp add: filter_map)
qed

lemma distribute_nth:
  assumes "k < length batches"
  shows "distribute ids index batches ! k =
           batches ! k @ map (nth ids) (filter (\<lambda>j. (index + j) mod length batches = k) [0..<length ids])"
  using assms
proof (induction ids arbitrary: index batches)
  case Nil
  then show ?case by simp
next
  case (Cons i ids)
  let ?n = "length batches"
  let ?bs = "batches[index mod ?n := batches ! (index mod ?n) @ [i]]"
  have "0 < ?n" using Cons.prems by auto
  then have pos: "index mod ?n < ?n" by simp
  have step: "distribute (i # ids) index batches ! k =
      ?bs ! k @ map (nth ids) (filter (\<lambda>j. (Suc index + j) mod ?n = k) [0..<length ids])"
    using Cons.IH[of ?bs "Suc index"] Cons.prems by simp
  have upd: "?bs ! k = batches ! k @ (if index mod ?n = k then [i] else [])"
    using Cons.prems pos by (simp add: nth_list_update)
  have shift: "map (nth (i # ids)) (filter (\<lambda>j. (index + j) mod ?n = k) [0..<Suc (length ids)]) =
      (if index mod ?n = k then [i] else [])
      @ map (nth ids) (filter (\<lambda>j. (Suc index + j) mod ?n = k) [0..<length ids])"
    by (subst filter_upt_Suc) (simp add: o_def del: upt_Suc)
  show ?case by (simp only: step upd shift append_assoc length_Cons)
qed

lemma distribute_buckets:
  "distribute ids 0 (map (\<lambda>process. []) ws) = map (bucket ids (length ws)) [0..<length ws]"
  by (rule nth_equalityI) (simp_all add: distribute_nth bucket_def)

lemma evaluateBatches_workers:
  "length ws = length batches \<Longrightarrow>
   snd (evaluateBatches env ws batches) =
     map2 (\<lambda>w samples. if samples = [] then w
                        else deliver (Evaluate samples) ''evaluationCompleted'' w) ws batches"
proof (induction ws batches rule: list_induct2)
  case Nil
  then show ?case by simp
next
  case (Cons w ws samples batches)
  then show ?case
    using snd_writeAndWait[of env w "Evaluate samples" "''evaluationCompleted''"]
    by (simp add: case_prod_beta)
qed

lemma evaluateBatches_promises:
  "length ws = length batches \<Longrightarrow>
   fst (evaluateBatches env ws batches) =
     map2 (\<lambda>w samples. if samples = [] then Resolved []
                        else thenObjects (fst (writeAndWaitForMatchingOutput env w
                               (Evaluate samples) ''evaluationCompleted''))) ws batches"
proof (induction ws batches rule: list_induct2)
  case Nil
  then show ?case by simp
next
  case (Cons w ws samples batches)
  then show ?case by (simp add: case_prod_beta)
qed

lemma processObjects_processes:
  assumes "processes self \<noteq> []"
  shows "processes (snd (processObjects env self ids)) =
     map (\<lambda>k. if bucket ids (length (processes self)) k = [] then processes self ! k
              else deliver (Evaluate (bucket ids (length (processes self)) k)) ''evaluationCompleted''
                     (processes self ! k))
       [0..<length (processes self)]"
proof -
  let ?ws = "processes self"
  let ?n = "length ?ws"
  have "processes (snd (processObjects env self ids)) =
      snd (evaluateBatches env ?ws (distribute ids 0 (map (\<lambda>process. []) ?ws)))"
    using assms by (simp add: processObjects_def case_prod_beta)
  also have "\<dots> = map2 (\<lambda>w samples. if samples = [] then w
                        else deliver (Evaluate samples) ''evaluationCompleted'' w)
                    ?ws (map (bucket ids ?n) [0..<?n])"
    by (simp add: evaluateBatches_workers distribute_buckets)
  also have "\<dots> = map (\<lambda>k. if bucket ids ?n k = [] then ?ws ! k
              else deliver (Evaluate (bucket ids ?n k)) ''evaluationCompleted'' (?ws ! k)) [0..<?n]"
    by (rule nth_equalityI) simp_all
  finally show ?thesis .
qed

lemma collect_map_Resolved: "collect (map Resolved vs) = Some vs"
  by (induction vs) simp_all

lemma collect_SomeD: "collect ps = Some vs \<Longrightarrow> ps = map Resolved vs"
proof (induction ps arbitrary: vs)
  case Nil
  then show ?case by simp
next
  case (Cons p ps)
  then show ?case by (cases p) (auto split: option.splits)
qed

lemma collect_Some_iff: "collect ps = Some vs \<longleftrightarrow> ps = map Resolved vs"
  using collect_map_Resolved collect_SomeD by blast

lemma asyncMap_resolved:
  "asyncMap env ps = Resolved vs \<Longrightarrow> ps = map Resolved vs"
  by (auto simp: asyncMap_def collect_Some_iff split: list.splits option.splits)

lemma map_filter_rejection_resolved:
  "List.map_filter (\<lambda>k. rejection (map Resolved vs ! k)) (arrivalOrder env (length vs)) = []"
proof -
  have "set (arrivalOrder env (length vs)) = {0..<length vs}"
    by (simp add: arrivalOrder_def)
  then have "\<forall>k \<in> set (arrivalOrder env (length vs)). rejection (map Resolved vs ! k) = None"
    by simp
  then show ?thesis
    by (induction "arrivalOrder env (length vs)") (auto simp: List.map_filter_def filter_empty_conv)
qed

lemma asyncMap_all_resolved: "asyncMap env (map Resolved vs) = Resolved vs"
proof -
  have "collect (map Resolved vs) = Some vs" by (simp add: collect_Some_iff)
  then show ?thesis
    using map_filter_rejection_resolved[of vs env] by (simp add: asyncMap_def)
qed

lemma processObjects_empty: "processObjects env self [] = (Resolved [], self)"
proof -
  let ?ws = "processes self"
  have b: "distribute [] 0 (map (\<lambda>process. []) ?ws) = map (\<lambda>process. []) ?ws" by simp
  have w: "snd (evaluateBatches env ?ws (map (\<lambda>process. []) ?ws)) = ?ws"
    unfolding evaluateBatches_workers[of ?ws "map (\<lambda>process. []) ?ws" env, simplified]
    by (rule nth_equalityI) simp_all
  have p: "fst (evaluateBatches env ?ws (map (\<lambda>process. []) ?ws)) = map Resolved (map (\<lambda>process. []) ?ws)"
    unfolding evaluateBatches_promises[of ?ws "map (\<lambda>process. []) ?ws" env, simplified]
    by (rule nth_equalityI) simp_all
  show ?thesis
    using w p by (simp add: processObjects_def case_prod_beta asyncMap_all_resolved del: map_map)
qed

lemma bucket_4_3:
  "bucket [a, b, c, d] (Suc (Suc (Suc 0))) 0 = [a, d]"
  "bucket [a, b, c, d] (Suc (Suc (Suc 0))) (Suc 0) = [b]"
  "bucket [a, b, c, d] (Suc (Suc (Suc 0))) (Suc (Suc 0)) = [c]"
  by (simp_all add: bucket_def upt_conv_Cons mod_Suc)

text \<open>
  Claim C2. On a pool of \<open>N \<ge> 1\<close> workers \<open>processObjects\<close> partitions the identifier
  list round-robin: the batch of worker \<open>k\<close> holds, in order, the identifiers at the
  positions \<open>i\<close> with \<open>i mod N = k\<close>. It writes one \<open>evaluate\<close> exchange (awaiting
  \<open>evaluationCompleted\<close>) to every worker whose batch is not empty and nothing to a
  worker whose batch is empty, which contributes an empty object list. With three
  workers the identifiers \<open>a, b, c, d\<close> go out as \<open>[a, d]\<close>, \<open>[b]\<close> and \<open>[c]\<close>; on an empty
  list no exchange is written and the result is the empty list.
\<close>

theorem processObjects_round_robin:
  assumes "processes self \<noteq> []"
  shows "distribute ids 0 (map (\<lambda>process. []) (processes self)) =
           map (bucket ids (length (processes self))) [0..<length (processes self)]
     \<and> processes (snd (processObjects env self ids)) =
         map (\<lambda>k. if bucket ids (length (processes self)) k = [] then processes self ! k
                  else deliver (Evaluate (bucket ids (length (processes self)) k)) ''evaluationCompleted''
                         (processes self ! k))
           [0..<length (processes self)]
     \<and> fst (evaluateBatches env (processes self)
                (distribute ids 0 (map (\<lambda>process. []) (processes self)))) =
         map (\<lambda>k. if bucket ids (length (processes self)) k = [] then Resolved []
                  else thenObjects (fst (writeAndWaitForMatchingOutput env (processes self ! k)
                         (Evaluate (bucket ids (length (processes self)) k)) ''evaluationCompleted'')))
           [0..<length (processes self)]
     \<and> (processes self = [w0, w1, w2] \<longrightarrow>
          processes (snd (processObjects env self [a, b, c, d])) =
            [deliver (Evaluate [a, d]) ''evaluationCompleted'' w0,
             deliver (Evaluate [b]) ''evaluationCompleted'' w1,
             deliver (Evaluate [c]) ''evaluationCompleted'' w2])
     \<and> processObjects env self [] = (Resolved [], self)
     \<and> (\<forall>samples. messageType (Evaluate samples) = ''evaluate'')"
proof -
  have three:
    "processes (snd (processObjects env self [a, b, c, d])) =
            [deliver (Evaluate [a, d]) ''evaluationCompleted'' w0,
             deliver (Evaluate [b]) ''evaluationCompleted'' w1,
             deliver (Evaluate [c]) ''evaluationCompleted'' w2]"
    if "processes self = [w0, w1, w2]"
    using processObjects_processes[of self env "[a, b, c, d]"] that
    by (simp add: bucket_4_3 upt_conv_Cons)
  have results: "fst (evaluateBatches env (processes self)
                (distribute ids 0 (map (\<lambda>process. []) (processes self)))) =
         map (\<lambda>k. if bucket ids (length (processes self)) k = [] then Resolved []
                  else thenObjects (fst (writeAndWaitForMatchingOutput env (processes self ! k)
                         (Evaluate (bucket ids (length (processes self)) k)) ''evaluationCompleted'')))
           [0..<length (processes self)]"
    unfolding distribute_buckets
    by (subst evaluateBatches_promises, simp, rule nth_equalityI) simp_all
  show ?thesis
    using three processObjects_processes[OF assms, of env ids] results
    by (simp only: distribute_buckets processObjects_empty messageType.simps) blast
qed

theorem processObjects_round_robin_witness:
  "map inbox (processes (snd (processObjects obedient pool3 [''a'', ''b'', ''c'', ''d'']))) =
     [[(Handshake, ''handshake''), (Evaluate [''a'', ''d''], ''evaluationCompleted'')],
      [(Handshake, ''handshake''), (Evaluate [''b''], ''evaluationCompleted'')],
      [(Handshake, ''handshake''), (Evaluate [''c''], ''evaluationCompleted'')]]
   \<and> map inbox (processes (snd (processObjects obedient pool3 [''a'']))) =
     [[(Handshake, ''handshake''), (Evaluate [''a''], ''evaluationCompleted'')],
      [(Handshake, ''handshake'')],
      [(Handshake, ''handshake'')]]
   \<and> processObjects obedient pool2 [] = (Resolved [], pool2)"
proof -
  have ne3: "processes pool3 \<noteq> []" by code_simp
  have ne2: "processes pool2 \<noteq> []" by code_simp
  have shape: "processes pool3 = [processes pool3 ! 0, processes pool3 ! 1, processes pool3 ! 2]"
    by code_simp
  have four: "map inbox [deliver (Evaluate [''a'', ''d'']) ''evaluationCompleted'' (processes pool3 ! 0),
             deliver (Evaluate [''b'']) ''evaluationCompleted'' (processes pool3 ! 1),
             deliver (Evaluate [''c'']) ''evaluationCompleted'' (processes pool3 ! 2)] =
     [[(Handshake, ''handshake''), (Evaluate [''a'', ''d''], ''evaluationCompleted'')],
      [(Handshake, ''handshake''), (Evaluate [''b''], ''evaluationCompleted'')],
      [(Handshake, ''handshake''), (Evaluate [''c''], ''evaluationCompleted'')]]"
    by code_simp
  have one: "map inbox (map (\<lambda>k. if bucket [''a''] (length (processes pool3)) k = [] then processes pool3 ! k
                  else deliver (Evaluate (bucket [''a''] (length (processes pool3)) k)) ''evaluationCompleted''
                         (processes pool3 ! k))
           [0..<length (processes pool3)]) =
     [[(Handshake, ''handshake''), (Evaluate [''a''], ''evaluationCompleted'')],
      [(Handshake, ''handshake'')],
      [(Handshake, ''handshake'')]]"
    by code_simp
  note t4 = processObjects_round_robin[OF ne3, of "[''a'', ''b'', ''c'', ''d'']" obedient
      "processes pool3 ! 0" "processes pool3 ! 1" "processes pool3 ! 2" "''a''" "''b''" "''c''" "''d''"]
  note t1 = processObjects_round_robin[OF ne3, of "[''a'']" obedient]
  note t0 = processObjects_round_robin[OF ne2, of "[]" obedient]
  from t4 shape have r4: "processes (snd (processObjects obedient pool3 [''a'', ''b'', ''c'', ''d''])) =
      [deliver (Evaluate [''a'', ''d'']) ''evaluationCompleted'' (processes pool3 ! 0),
             deliver (Evaluate [''b'']) ''evaluationCompleted'' (processes pool3 ! 1),
             deliver (Evaluate [''c'']) ''evaluationCompleted'' (processes pool3 ! 2)]"
    by blast
  from t1 have r1: "processes (snd (processObjects obedient pool3 [''a''])) =
      map (\<lambda>k. if bucket [''a''] (length (processes pool3)) k = [] then processes pool3 ! k
                  else deliver (Evaluate (bucket [''a''] (length (processes pool3)) k)) ''evaluationCompleted''
                         (processes pool3 ! k))
           [0..<length (processes pool3)]"
    by blast
  from t0 have r0: "processObjects obedient pool2 [] = (Resolved [], pool2)" by blast
  show ?thesis by (simp only: r4 r1 r0 four one)
qed

subsection \<open>The merged result list\<close>

lemma map_of_keyed_find:
  "map_of (map (\<lambda>obj. (oid obj, obj)) objs) k = find (\<lambda>obj. oid obj = k) objs"
  by (induction objs) auto

lemma merge_without_proto:
  assumes "''__proto__'' \<notin> oid ` set objs"
  shows "own (foldl (\<lambda>allResults object. setProperty allResults (oid object) object) obj objs) =
           own obj ++ map_of (rev (map (\<lambda>obj. (oid obj, obj)) objs))
     \<and> proto (foldl (\<lambda>allResults object. setProperty allResults (oid object) object) obj objs) =
           proto obj"
  using assms
proof (induction objs arbitrary: obj)
  case Nil
  then show ?case by simp
next
  case (Cons x objs)
  have x: "oid x \<noteq> ''__proto__''" using Cons.prems by auto
  have rest: "''__proto__'' \<notin> oid ` set objs" using Cons.prems by auto
  have step: "own (setProperty obj (oid x) x) = (own obj)(oid x \<mapsto> x)"
    "proto (setProperty obj (oid x) x) = proto obj"
    using x by (simp_all add: setProperty_def)
  have eq: "(own obj)(oid x \<mapsto> x) ++ map_of (rev (map (\<lambda>obj. (oid obj, obj)) objs)) =
        own obj ++ map_of (rev (map (\<lambda>obj. (oid obj, obj)) (x # objs)))"
    by (simp add: fun_eq_iff map_add_def split: option.splits)
  show ?case
    using Cons.IH[OF rest, of "setProperty obj (oid x) x"]
    by (simp only: foldl_Cons step eq) 
qed

lemma mergeResults_without_proto:
  assumes "''__proto__'' \<notin> oid ` set (concat results)"
  shows "own (mergeResults results) k = find (\<lambda>obj. oid obj = k) (rev (concat results))"
    and "proto (mergeResults results) = None"
  using merge_without_proto[OF assms, of emptyObject]
  by (simp_all add: mergeResults_def emptyObject_def map_of_keyed_find[symmetric] rev_map)

lemma getProperty_plain:
  assumes "proto obj = None" and "k \<notin> set objectPrototypeNames"
  shows "getProperty obj k = (case own obj k of Some v \<Rightarrow> Object v | None \<Rightarrow> Undefined)"
proof -
  have "k \<noteq> ''__proto__''" using assms(2) by (auto simp: objectPrototypeNames_def)
  then show ?thesis using assms by (simp add: getProperty_def split: option.splits)
qed

lemma processObjects_resolvedD:
  assumes "fst (processObjects env self ids) = Resolved slots"
  shows "fst (evaluateBatches env (processes self)
                (distribute ids 0 (map (\<lambda>process. []) (processes self)))) =
           map Resolved (map (\<lambda>p. case p of Resolved os \<Rightarrow> os | _ \<Rightarrow> [])
             (fst (evaluateBatches env (processes self)
                (distribute ids 0 (map (\<lambda>process. []) (processes self))))))"
    and "slots = map (getProperty (mergeResults (map (\<lambda>p. case p of Resolved os \<Rightarrow> os | _ \<Rightarrow> [])
             (fst (evaluateBatches env (processes self)
                (distribute ids 0 (map (\<lambda>process. []) (processes self)))))))) ids"
proof -
  let ?ps = "fst (evaluateBatches env (processes self)
                (distribute ids 0 (map (\<lambda>process. []) (processes self))))"
  from assms obtain results where r: "asyncMap env ?ps = Resolved results"
    and s: "slots = map (getProperty (mergeResults results)) ids"
    by (auto simp: processObjects_def case_prod_beta split: if_splits promise.splits)
  from r have ps: "?ps = map Resolved results" by (rule asyncMap_resolved)
  then have "map (\<lambda>p. case p of Resolved os \<Rightarrow> os | _ \<Rightarrow> []) ?ps = results"
    by (simp add: o_def)
  then show "?ps = map Resolved (map (\<lambda>p. case p of Resolved os \<Rightarrow> os | _ \<Rightarrow> []) ?ps)"
    and "slots = map (getProperty (mergeResults (map (\<lambda>p. case p of Resolved os \<Rightarrow> os | _ \<Rightarrow> []) ?ps))) ids"
    using ps s by simp_all
qed

text \<open>
  What \<open>processObjects\<close> resolves with: one slot per requested identifier, in the order
  of the request. For an identifier that does not name a property of \<open>Object.prototype\<close>
  (and when no returned object is called \<open>__proto__\<close>) the slot holds the last returned
  object with that identifier, or \<open>undefined\<close> when there is none.
\<close>

lemma processObjects_ordered_results:
  assumes "fst (processObjects env self ids) = Resolved slots"
  shows "length slots = length ids
     \<and> (\<forall>i<length ids.
            ids ! i \<notin> set objectPrototypeNames
            \<and> ''__proto__'' \<notin> oid ` set (returnedObjects env self ids)
          \<longrightarrow> slots ! i =
                (case find (\<lambda>obj. oid obj = ids ! i) (rev (returnedObjects env self ids)) of
                   Some obj \<Rightarrow> Object obj
                 | None \<Rightarrow> Undefined))"
proof -
  let ?results = "map (\<lambda>p. case p of Resolved os \<Rightarrow> os | _ \<Rightarrow> [])
             (fst (evaluateBatches env (processes self)
                (distribute ids 0 (map (\<lambda>process. []) (processes self)))))"
  have s: "slots = map (getProperty (mergeResults ?results)) ids"
    using processObjects_resolvedD(2)[OF assms] .
  have ret: "returnedObjects env self ids = concat ?results"
    by (simp add: returnedObjects_def)
  have "slots ! i = (case find (\<lambda>obj. oid obj = ids ! i) (rev (returnedObjects env self ids)) of
                   Some obj \<Rightarrow> Object obj | None \<Rightarrow> Undefined)"
    if i: "i < length ids" and safe: "ids ! i \<notin> set objectPrototypeNames"
      and np: "''__proto__'' \<notin> oid ` set (returnedObjects env self ids)" for i
  proof -
    have np': "''__proto__'' \<notin> oid ` set (concat ?results)" using np unfolding ret .
    have own_eq: "own (mergeResults ?results) (ids ! i) =
        find (\<lambda>obj. oid obj = ids ! i) (rev (returnedObjects env self ids))"
      unfolding ret using np' by (rule mergeResults_without_proto(1))
    have no_proto: "proto (mergeResults ?results) = None"
      using np' by (rule mergeResults_without_proto(2))
    have "slots ! i = getProperty (mergeResults ?results) (ids ! i)"
      using s i by simp
    also have "\<dots> = (case own (mergeResults ?results) (ids ! i) of Some v \<Rightarrow> Object v | None \<Rightarrow> Undefined)"
      using no_proto safe by (rule getProperty_plain)
    finally show ?thesis
      by (simp only: own_eq)
  qed
  then have "\<forall>i<length ids.
            ids ! i \<notin> set objectPrototypeNames
            \<and> ''__proto__'' \<notin> oid ` set (returnedObjects env self ids)
          \<longrightarrow> slots ! i =
                (case find (\<lambda>obj. oid obj = ids ! i) (rev (returnedObjects env self ids)) of
                   Some obj \<Rightarrow> Object obj
                 | None \<Rightarrow> Undefined)"
    by blast
  moreover have "length slots = length ids" using s by simp
  ultimately show ?thesis by (rule conjI[rotated])
qed

text \<open>
  Claim C1 says that the slot of an identifier for which no worker returned an object
  is \<open>undefined\<close>. It is not for an identifier that names a property of
  \<open>Object.prototype\<close>: on a pool of one worker that returns no object,
  \<open>processObjects(["constructor"])\<close> resolves with the inherited \<open>constructor\<close> function
  in the slot, since \<open>allResults\<close> is a plain object and is read without an own-property
  check.
\<close>

theorem processObjects_inherited_slot:
  "returnedObjects forgetful pool1 [''constructor''] = []
   \<and> fst (processObjects forgetful pool1 [''constructor'']) = Resolved [Builtin ''constructor'']"
  by code_simp

section \<open>startProcess\<close>

lemma arrivalOrder_set [simp]: "set (arrivalOrder env n) = {0..<n}"
  by (simp add: arrivalOrder_def)

lemma arrivalOrder_length [simp]: "length (arrivalOrder env n) = n"
  by (simp add: arrivalOrder_def)

lemma spawned_workers:
  "[w. Inr w \<leftarrow> map (\<lambda>n. spawn env ''luajit'' ''TrainingScript.lua'' (n + 1) (numProcesses self)
                               (scriptFolder self) n) ns] =
   map (freshWorker self) (filter (\<lambda>n. spawned env n = None) ns)"
  by (induction ns) (auto simp: spawn_def freshWorker_def split: option.splits)

lemma spawned_errors:
  "[e. Inl e \<leftarrow> map (\<lambda>n. spawn env ''luajit'' ''TrainingScript.lua'' (n + 1) (numProcesses self)
                               (scriptFolder self) n) ns] =
   List.map_filter (spawned env) ns"
  by (induction ns) (auto simp: spawn_def List.map_filter_def split: option.splits)

lemma startProcess_unfold:
  "startProcess env self =
     (case spawnFailures env self of
        e # es \<Rightarrow> (Rejected e, self\<lparr>processes := processes self @ map (freshWorker self) (spawnSuccesses env self)\<rparr>)
      | [] \<Rightarrow>
          (fst (promiseEach env Handshake ''handshake''
                  (processes self @ map (freshWorker self) (spawnSuccesses env self))),
           self\<lparr>processes := snd (promiseEach env Handshake ''handshake''
                  (processes self @ map (freshWorker self) (spawnSuccesses env self)))\<rparr>))"
  unfolding startProcess_def Let_def spawned_workers spawned_errors
  by (simp add: spawnFailures_def spawnSuccesses_def case_prod_beta split: list.splits)

lemma spawnFailures_empty_iff:
  "spawnFailures env self = [] \<longleftrightarrow> (\<forall>n<numProcesses self. spawned env n = None)"
proof -
  have "List.map_filter f ns = [] \<longleftrightarrow> (\<forall>n\<in>set ns. f n = None)" for f :: "nat \<Rightarrow> error option" and ns
    by (induction ns) (auto simp: List.map_filter_def)
  then show ?thesis by (auto simp: spawnFailures_def)
qed

lemma spawnSuccesses_all:
  "spawnFailures env self = [] \<Longrightarrow> spawnSuccesses env self = arrivalOrder env (numProcesses self)"
  by (simp add: spawnFailures_empty_iff spawnSuccesses_def)

lemma promiseEach_alive: "map alive (snd (promiseEach env msg expected ws)) = map alive ws"
proof -
  have d: "map alive (map (deliver msg expected) xs) = map alive xs" for xs
    by (simp add: deliver_def)
  have "map alive (snd (promiseEach env msg expected ws)) =
      map alive (take (Suc (length (takeWhile (acknowledges env msg expected) ws))) ws)
      @ map alive (drop (Suc (length (takeWhile (acknowledges env msg expected) ws))) ws)"
    by (simp only: promiseEach_workers map_append d)
  then show ?thesis by (simp only: map_append[symmetric] append_take_drop_id)
qed

lemma startProcess_alive:
  "map alive (processes (snd (startProcess env self))) =
     map alive (processes self) @ replicate (length (spawnSuccesses env self)) True"
proof -
  have f: "map (alive \<circ> freshWorker self) ns = replicate (length ns) True" for ns
    by (induction ns) (simp_all add: freshWorker_def)
  show ?thesis
    by (cases "spawnFailures env self") (simp_all add: startProcess_unfold promiseEach_alive f)
qed

text \<open>
  Claim C4, as the code has it. \<open>startProcess\<close> starts \<open>numProcesses\<close> spawns of the same
  command line (differing in the rank \<open>n + 1\<close> only) in the script folder. When all
  of them succeed it performs the handshake exchange (awaiting a reply of type
  \<open>handshake\<close>) on the workers in pool order and resolves exactly when the exchange with
  every worker has resolved; when the handshake of a worker fails it rejects with that
  failure. When a spawn fails it rejects with the first failure to arrive and sends no
  handshake. On no path does it terminate a worker: every worker that was spawned
  stays in the pool, alive, also after a failed startup.
\<close>

theorem startProcess_all_or_reject:
  "length (arrivalOrder env (numProcesses self)) = numProcesses self
   \<and> set (arrivalOrder env (numProcesses self)) = {0..<numProcesses self}
   \<and> ((\<forall>n<numProcesses self. spawned env n = None) \<longrightarrow>
        isResolved (fst (startProcess env self)) =
          list_all (acknowledges env Handshake ''handshake'')
            (processes self @ map (freshWorker self) (arrivalOrder env (numProcesses self)))
        \<and> (isResolved (fst (startProcess env self)) \<longrightarrow>
             processes (snd (startProcess env self)) =
               map (deliver Handshake ''handshake'')
                 (processes self @ map (freshWorker self) (arrivalOrder env (numProcesses self))))
        \<and> (\<forall>k e. k < length (processes self) + numProcesses self
               \<and> (\<forall>j<k. acknowledges env Handshake ''handshake''
                     ((processes self @ map (freshWorker self) (arrivalOrder env (numProcesses self))) ! j))
               \<and> fst (writeAndWaitForMatchingOutput env
                     ((processes self @ map (freshWorker self) (arrivalOrder env (numProcesses self))) ! k)
                     Handshake ''handshake'') = Rejected e
             \<longrightarrow> fst (startProcess env self) = Rejected e))
   \<and> (\<forall>e es. spawnFailures env self = e # es \<longrightarrow>
        fst (startProcess env self) = Rejected e
        \<and> processes (snd (startProcess env self)) =
             processes self @ map (freshWorker self) (spawnSuccesses env self))
   \<and> ((\<exists>n<numProcesses self. spawned env n \<noteq> None) \<longrightarrow> \<not> isResolved (fst (startProcess env self)))
   \<and> map alive (processes (snd (startProcess env self))) =
        map alive (processes self) @ replicate (length (spawnSuccesses env self)) True"
proof -
  let ?all = "processes self @ map (freshWorker self) (arrivalOrder env (numProcesses self))"
  have ok: "isResolved (fst (startProcess env self)) = list_all (acknowledges env Handshake ''handshake'') ?all
        \<and> (isResolved (fst (startProcess env self)) \<longrightarrow>
             processes (snd (startProcess env self)) = map (deliver Handshake ''handshake'') ?all)
        \<and> (\<forall>k e. k < length (processes self) + numProcesses self
               \<and> (\<forall>j<k. acknowledges env Handshake ''handshake'' (?all ! j))
               \<and> fst (writeAndWaitForMatchingOutput env (?all ! k) Handshake ''handshake'') = Rejected e
             \<longrightarrow> fst (startProcess env self) = Rejected e)"
    if "\<forall>n<numProcesses self. spawned env n = None"
  proof -
    from that have none: "spawnFailures env self = []" by (simp add: spawnFailures_empty_iff)
    then have all: "spawnSuccesses env self = arrivalOrder env (numProcesses self)"
      by (rule spawnSuccesses_all)
    have f: "fst (startProcess env self) = fst (promiseEach env Handshake ''handshake'' ?all)"
      and s: "processes (snd (startProcess env self)) = snd (promiseEach env Handshake ''handshake'' ?all)"
      using none all by (simp_all add: startProcess_unfold)
    have "processes (snd (startProcess env self)) = map (deliver Handshake ''handshake'') ?all"
      if "isResolved (fst (startProcess env self))"
    proof -
      from that f have "fst (promiseEach env Handshake ''handshake'' ?all) = Resolved ()"
        by (cases "fst (promiseEach env Handshake ''handshake'' ?all)") simp_all
      then show ?thesis using s by (simp only: promiseEach_resolved_workers)
    qed
    moreover have "fst (startProcess env self) = Rejected e"
      if "k < length (processes self) + numProcesses self"
        and "\<forall>j<k. acknowledges env Handshake ''handshake'' (?all ! j)"
        and "fst (writeAndWaitForMatchingOutput env (?all ! k) Handshake ''handshake'') = Rejected e"
      for k e
    proof -
      from that(1) have "k < length ?all" by simp
      from this that(2,3) have "fst (promiseEach env Handshake ''handshake'' ?all) = Rejected e"
        by (rule promiseEach_rejected)
      then show ?thesis by (simp only: f)
    qed
    ultimately show ?thesis using f by (simp only: promiseEach_resolved_iff) blast
  qed
  have bad: "\<forall>e es. spawnFailures env self = e # es \<longrightarrow>
        fst (startProcess env self) = Rejected e
        \<and> processes (snd (startProcess env self)) =
             processes self @ map (freshWorker self) (spawnSuccesses env self)"
    by (simp add: startProcess_unfold)
  have never: "\<not> isResolved (fst (startProcess env self))"
    if "\<exists>n<numProcesses self. spawned env n \<noteq> None"
  proof -
    from that have "spawnFailures env self \<noteq> []" by (simp add: spawnFailures_empty_iff)
    then obtain e es where "spawnFailures env self = e # es"
      by (cases "spawnFailures env self") auto
    then show ?thesis by (simp add: startProcess_unfold)
  qed
  from ok bad never show ?thesis
    by (simp only: arrivalOrder_length arrivalOrder_set startProcess_alive) blast
qed

theorem startProcess_all_or_reject_witness:
  "fst (startProcess obedient (configured 3)) = Resolved ()
   \<and> map rank (processes (snd (startProcess obedient (configured 3)))) = [1, 2, 3]
   \<and> map inbox (processes (snd (startProcess obedient (configured 3)))) = replicate 3 [(Handshake, ''handshake'')]
   \<and> fst (startProcess scarce (configured 2)) = Rejected (Error ''spawn luajit EAGAIN'')
   \<and> map inbox (processes (snd (startProcess scarce (configured 2)))) = [[]]
   \<and> map alive (processes (snd (startProcess scarce (configured 2)))) = [True]
   \<and> fst (startProcess halfDeaf (configured 2)) = Rejected (Error ''handshake failed'')"
proof -
  note good = startProcess_all_or_reject[of obedient "configured 3"]
  note bad = startProcess_all_or_reject[of scarce "configured 2"]
  note deaf = startProcess_all_or_reject[of halfDeaf "configured 2"]
  have all2: "\<forall>n<numProcesses (configured 2). spawned halfDeaf n = None"
    by (simp add: halfDeaf_def obedient_def)
  have second: "1 < length (processes (configured 2)) + numProcesses (configured 2)"
    by code_simp
  have first: "\<forall>j<1. acknowledges halfDeaf Handshake ''handshake''
      ((processes (configured 2) @ map (freshWorker (configured 2))
          (arrivalOrder halfDeaf (numProcesses (configured 2)))) ! j)"
  proof -
    have "acknowledges halfDeaf Handshake ''handshake''
      ((processes (configured 2) @ map (freshWorker (configured 2))
          (arrivalOrder halfDeaf (numProcesses (configured 2)))) ! 0)"
      by code_simp
    then show ?thesis by simp
  qed
  have refused: "fst (writeAndWaitForMatchingOutput halfDeaf
      ((processes (configured 2) @ map (freshWorker (configured 2))
          (arrivalOrder halfDeaf (numProcesses (configured 2)))) ! 1)
      Handshake ''handshake'') = Rejected (Error ''handshake failed'')"
    by code_simp
  from deaf all2 second first refused
  have c7: "fst (startProcess halfDeaf (configured 2)) = Rejected (Error ''handshake failed'')"
    by blast
  have all: "\<forall>n<numProcesses (configured 3). spawned obedient n = None"
    by (simp add: obedient_def)
  have acks: "list_all (acknowledges obedient Handshake ''handshake'')
      (processes (configured 3) @ map (freshWorker (configured 3)) (arrivalOrder obedient (numProcesses (configured 3))))"
    by code_simp
  have after: "map (deliver Handshake ''handshake'')
      (processes (configured 3) @ map (freshWorker (configured 3)) (arrivalOrder obedient (numProcesses (configured 3))))
     = processes (snd (startProcess obedient (configured 3)))"
    using good all acks by simp
  have ranks: "map rank (map (deliver Handshake ''handshake'')
      (processes (configured 3) @ map (freshWorker (configured 3)) (arrivalOrder obedient (numProcesses (configured 3)))))
     = [1, 2, 3]" by code_simp
  have inboxes: "map inbox (map (deliver Handshake ''handshake'')
      (processes (configured 3) @ map (freshWorker (configured 3)) (arrivalOrder obedient (numProcesses (configured 3)))))
     = replicate 3 [(Handshake, ''handshake'')]" by code_simp
  have res: "fst (startProcess obedient (configured 3)) = Resolved ()"
    using good all acks by (cases "fst (startProcess obedient (configured 3))") simp_all
  have fails: "spawnFailures scarce (configured 2) = [Error ''spawn luajit EAGAIN'']" by code_simp
  have rest: "map inbox (processes (configured 2) @ map (freshWorker (configured 2)) (spawnSuccesses scarce (configured 2))) = [[]]"
    by code_simp
  have live: "map alive (processes (configured 2)) @ replicate (length (spawnSuccesses scarce (configured 2))) True = [True]"
    by code_simp
  from bad fails have b1: "fst (startProcess scarce (configured 2)) = Rejected (Error ''spawn luajit EAGAIN'')"
    and b2: "processes (snd (startProcess scarce (configured 2))) =
        processes (configured 2) @ map (freshWorker (configured 2)) (spawnSuccesses scarce (configured 2))"
    by blast+
  from bad have b3: "map alive (processes (snd (startProcess scarce (configured 2)))) =
      map alive (processes (configured 2)) @ replicate (length (spawnSuccesses scarce (configured 2))) True"
    by blast
  have c2: "map rank (processes (snd (startProcess obedient (configured 3)))) = [1, 2, 3]"
    using ranks unfolding after .
  have c3: "map inbox (processes (snd (startProcess obedient (configured 3)))) = replicate 3 [(Handshake, ''handshake'')]"
    using inboxes unfolding after .
  have c5: "map inbox (processes (snd (startProcess scarce (configured 2)))) = [[]]"
    using rest unfolding b2[symmetric] .
  have c6: "map alive (processes (snd (startProcess scarce (configured 2)))) = [True]"
    using live unfolding b3[symmetric] .
  show ?thesis
    by (rule conjI[OF res conjI[OF c2 conjI[OF c3 conjI[OF b1 conjI[OF c5 conjI[OF c6 c7]]]]]])
qed

text \<open>
  Claim C4 as stated fails: a startup that is rejected leaves a partial pool of live
  workers. With two workers configured, when the second spawn fails the first worker
  stays in the pool and alive; when the second worker fails its handshake both workers
  do.
\<close>

theorem startProcess_partial_pool:
  "fst (startProcess scarce (configured 2)) = Rejected (Error ''spawn luajit EAGAIN'')
   \<and> map rank (processes (snd (startProcess scarce (configured 2)))) = [1]
   \<and> map alive (processes (snd (startProcess scarce (configured 2)))) = [True]
   \<and> fst (startProcess halfDeaf (configured 2)) = Rejected (Error ''handshake failed'')
   \<and> map rank (processes (snd (startProcess halfDeaf (configured 2)))) = [1, 2]
   \<and> map alive (processes (snd (startProcess halfDeaf (configured 2)))) = [True, True]"
  by code_simp

section \<open>extractNetworkDiagrams\<close>












subsection \<open>Rendering failures\<close>

lemma map_filter_empty_iff:
  "List.map_filter f xs = [] \<longleftrightarrow> (\<forall>x\<in>set xs. f x = None)"
  by (induction xs) (auto simp: List.map_filter_def)

lemma asyncMap_rejected:
  assumes "list_ex (\<lambda>p. rejection p \<noteq> None) ps"
  shows "\<exists>e. asyncMap env ps = Rejected e"
proof -
  from assms obtain k where k: "k < length ps" and r: "rejection (ps ! k) \<noteq> None"
    by (auto simp: list_ex_iff in_set_conv_nth)
  have "k \<in> set (arrivalOrder env (length ps))" using k by (simp add: arrivalOrder_def)
  with r have "List.map_filter (\<lambda>k. rejection (ps ! k)) (arrivalOrder env (length ps)) \<noteq> []"
    by (auto simp: map_filter_empty_iff)
  then show ?thesis
    by (cases "List.map_filter (\<lambda>k. rejection (ps ! k)) (arrivalOrder env (length ps))")
       (simp_all add: asyncMap_def)
qed

lemma pollOnce_render_fails:
  assumes "renderFails env folder k"
  shows "\<exists>e. pollOnce env folder k = (Rejected e, 0)"
proof -
  from assms obtain files where files: "readdir env folder k = Inr files"
    and ex: "list_ex (\<lambda>f. rejection (renderDiagram env folder k f) \<noteq> None) (filter isDotFile files)"
    by (auto simp: renderFails_def split: sum.splits)
  from ex have ne: "filter isDotFile files \<noteq> []" by auto
  from ex have "list_ex (\<lambda>p. rejection p \<noteq> None) (map (renderDiagram env folder k) (filter isDotFile files))"
    by (simp add: list_ex_iff)
  then obtain e where "asyncMap env (map (renderDiagram env folder k) (filter isDotFile files)) = Rejected e"
    using asyncMap_rejected by blast
  then show ?thesis using files ne by (simp add: pollOnce_def Let_def)
qed

lemma asyncRetry_render_fails:
  assumes "\<forall>j\<le>retries. renderFails env folder (k + j)"
  shows "(\<exists>e. outcome (asyncRetry env folder retries k t) = Rejected e)
     \<and> polledAt (asyncRetry env folder retries k t) = replicate (Suc retries) t
     \<and> settledAt (asyncRetry env folder retries k t) = t"
  using assms
proof (induction retries arbitrary: k t)
  case 0
  then obtain e where "pollOnce env folder k = (Rejected e, 0)"
    using pollOnce_render_fails[of env folder k] by auto
  then show ?case by simp
next
  case (Suc retries)
  have "renderFails env folder k" using Suc.prems[rule_format, of 0] by simp
  then obtain e where here: "pollOnce env folder k = (Rejected e, 0)"
    using pollOnce_render_fails by blast
  have later: "\<forall>j\<le>retries. renderFails env folder (Suc k + j)"
    using Suc.prems by (metis Suc_le_mono add_Suc_right add_Suc)
  show ?case using Suc.IH[OF later, of t] here by (simp add: polledBefore_def)
qed

lemma pollOnce_resolved:
  assumes "fst (pollOnce env folder k) = Resolved ds"
  shows "\<exists>files. readdir env folder k = Inr files
     \<and> map (renderDiagram env folder k) (filter isDotFile files) = map Resolved ds"
  using assms
  by (auto simp: pollOnce_def Let_def split: sum.splits if_splits dest: asyncMap_resolved)

lemma asyncRetry_resolved:
  assumes "outcome (asyncRetry env folder retries k t) = Resolved ds"
  shows "\<exists>j\<le>retries. \<exists>files. readdir env folder (k + j) = Inr files
     \<and> map (renderDiagram env folder (k + j)) (filter isDotFile files) = map Resolved ds"
  using assms
proof (induction retries arbitrary: k t)
  case 0
  obtain p d where po: "pollOnce env folder k = (p, d)" by (cases "pollOnce env folder k")
  with 0 have "fst (pollOnce env folder k) = Resolved ds" by simp
  from pollOnce_resolved[OF this] show ?case by simp
next
  case (Suc retries)
  obtain p d where po: "pollOnce env folder k = (p, d)" by (cases "pollOnce env folder k")
  show ?case
  proof (cases p)
    case (Resolved vs)
    with Suc.prems po have "fst (pollOnce env folder k) = Resolved ds" by simp
    from pollOnce_resolved[OF this] show ?thesis by (intro exI[of _ 0]) simp
  next
    case (Rejected e)
    with Suc.prems po have "outcome (asyncRetry env folder retries (Suc k) (t + d)) = Resolved ds"
      by (simp add: polledBefore_def)
    from Suc.IH[OF this] obtain j files where "j \<le> retries"
      and "readdir env folder (Suc k + j) = Inr files"
      and "map (renderDiagram env folder (Suc k + j)) (filter isDotFile files) = map Resolved ds"
      by blast
    then show ?thesis by (intro exI[of _ "Suc j"]) auto
  next
    case Pending
    with Suc.prems po show ?thesis by simp
  qed
qed

text \<open>
  Claim C7, as the code has it. When a poll finds diagram files and the rendering of
  one of them fails (the command fails or its output exceeds the buffer), the whole poll
  fails at once with an error and returns no rendered file; the next poll follows
  without delay, and when this happens at every poll the extraction is rejected. An
  extraction that resolves holds the rendered output of every diagram file that one of
  its polls listed.
\<close>

theorem extractNetworkDiagrams_all_or_nothing:
  "(\<forall>folder k. renderFails env folder k \<longrightarrow> (\<exists>e. pollOnce env folder k = (Rejected e, 0)))
   \<and> (\<forall>folder. scriptFolder self = Some folder \<and> (\<forall>k<100. renderFails env folder k) \<longrightarrow>
         (\<exists>e. outcome (extractNetworkDiagrams env self) = Rejected e)
         \<and> polledAt (extractNetworkDiagrams env self) = replicate 100 0)
   \<and> (\<forall>ds. outcome (extractNetworkDiagrams env self) = Resolved ds \<longrightarrow>
         (\<exists>folder k files. scriptFolder self = Some folder \<and> k < 100
            \<and> readdir env folder k = Inr files
            \<and> map (renderDiagram env folder k) (filter isDotFile files) = map Resolved ds))"
proof -
  have a: "\<forall>folder k. renderFails env folder k \<longrightarrow> (\<exists>e. pollOnce env folder k = (Rejected e, 0))"
    using pollOnce_render_fails by blast
  have b: "(\<exists>e. outcome (extractNetworkDiagrams env self) = Rejected e)
         \<and> polledAt (extractNetworkDiagrams env self) = replicate 100 0"
    if f: "scriptFolder self = Some folder" and n: "\<forall>k<100. renderFails env folder k" for folder
  proof -
    from n have "\<forall>j\<le>99. renderFails env folder (0 + j)" by simp
    from asyncRetry_render_fails[OF this, of 0] show ?thesis
      using f by (simp add: extractNetworkDiagrams_def retryAttempts_def)
  qed
  have c: "\<exists>folder k files. scriptFolder self = Some folder \<and> k < 100
            \<and> readdir env folder k = Inr files
            \<and> map (renderDiagram env folder k) (filter isDotFile files) = map Resolved ds"
    if r: "outcome (extractNetworkDiagrams env self) = Resolved ds" for ds
  proof (cases "scriptFolder self")
    case None
    with r show ?thesis by (simp add: extractNetworkDiagrams_def)
  next
    case (Some folder)
    with r have "outcome (asyncRetry env folder 99 0 0) = Resolved ds"
      by (simp add: extractNetworkDiagrams_def retryAttempts_def)
    from asyncRetry_resolved[OF this] obtain j files where "j \<le> 99"
      and "readdir env folder j = Inr files"
      and "map (renderDiagram env folder j) (filter isDotFile files) = map Resolved ds"
      by auto
    then show ?thesis using Some by (intro exI[of _ folder] exI[of _ j] exI[of _ files]) simp
  qed
  from a b c show ?thesis by blast
qed

theorem extractNetworkDiagrams_all_or_nothing_witness:
  "outcome (extractNetworkDiagrams brokenRenderer pool3) = Rejected (Error ''Command failed'')
   \<and> polledAt (extractNetworkDiagrams brokenRenderer pool3) = replicate 100 0
   \<and> outcome (extractNetworkDiagrams lateDiagrams pool3) =
       Resolved [\<lparr>file_name = ''a.dot'', data = ''PHN2Zy8+''\<rparr>, \<lparr>file_name = ''b.dot'', data = ''PHN2Zy8+''\<rparr>]
   \<and> map (renderDiagram lateDiagrams ''/tmp/eb'' 3) (filter isDotFile [''TrainingScript.lua'', ''a.dot'', ''b.dot'']) =
       map Resolved [\<lparr>file_name = ''a.dot'', data = ''PHN2Zy8+''\<rparr>, \<lparr>file_name = ''b.dot'', data = ''PHN2Zy8+''\<rparr>]"
proof -
  note t = extractNetworkDiagrams_all_or_nothing[of brokenRenderer pool3]
  have f: "scriptFolder pool3 = Some ''/tmp/eb''" by code_simp
  have one: "renderFails brokenRenderer ''/tmp/eb'' k" for k
  proof -
    have "renderFails brokenRenderer ''/tmp/eb'' 0" by code_simp
    moreover have "renderFails brokenRenderer ''/tmp/eb'' k = renderFails brokenRenderer ''/tmp/eb'' 0"
      by (simp add: renderFails_def brokenRenderer_def renderDiagram_def)
    ultimately show ?thesis by simp
  qed
  then have n: "\<forall>k<100. renderFails brokenRenderer ''/tmp/eb'' k" by simp
  from t f n have "(\<exists>e. outcome (extractNetworkDiagrams brokenRenderer pool3) = Rejected e)
         \<and> polledAt (extractNetworkDiagrams brokenRenderer pool3) = replicate 100 0"
    by blast
  moreover have "outcome (extractNetworkDiagrams brokenRenderer pool3) = Rejected (Error ''Command failed'')"
    by code_simp
  moreover have "outcome (extractNetworkDiagrams lateDiagrams pool3) =
       Resolved [\<lparr>file_name = ''a.dot'', data = ''PHN2Zy8+''\<rparr>, \<lparr>file_name = ''b.dot'', data = ''PHN2Zy8+''\<rparr>]"
    by code_simp
  moreover have "map (renderDiagram lateDiagrams ''/tmp/eb'' 3) (filter isDotFile [''TrainingScript.lua'', ''a.dot'', ''b.dot'']) =
       map Resolved [\<lparr>file_name = ''a.dot'', data = ''PHN2Zy8+''\<rparr>, \<lparr>file_name = ''b.dot'', data = ''PHN2Zy8+''\<rparr>]"
    by code_simp
  ultimately show ?thesis by blast
qed

text \<open>
  Claim C7 as stated fails: a rendering failure is not confined to its file. With
  \<open>a.dot\<close> and \<open>b.dot\<close> in the folder and a renderer that fails on \<open>b.dot\<close> only, the
  rendering of \<open>a.dot\<close> succeeds and yet the extraction as a whole is rejected with the
  failure of \<open>b.dot\<close>.
\<close>

theorem extractNetworkDiagrams_no_isolation:
  "renderDiagram brokenRenderer ''/tmp/eb'' 0 ''a.dot'' = Resolved \<lparr>file_name = ''a.dot'', data = ''PHN2Zy8+''\<rparr>
   \<and> renderDiagram brokenRenderer ''/tmp/eb'' 0 ''b.dot'' = Rejected (Error ''Command failed'')
   \<and> outcome (extractNetworkDiagrams brokenRenderer pool3) = Rejected (Error ''Command failed'')"
  by code_simp

end
